theory Spec2Isabelle
  imports Complex_Main "HOL-Library.Char_ord" "HOL-Library.List_Lexorder" "HOL-Library.Multiset"
begin

section \<open>The relational store of app.py\<close>

text \<open>
  The five tables created by \<open>init_db\<close>, one record per row type.  Every table is an
  \<open>INTEGER PRIMARY KEY AUTOINCREMENT\<close> table, so the store also keeps SQLite's
  \<open>sqlite_sequence\<close> counter of each table (the largest rowid handed out so far).
  Rows are kept in insertion order.

  Monetary columns (\<open>REAL\<close>) are Python floats.  They are modelled by a type variable
  \<open>'a\<close> that carries only the operation symbols \<open>0\<close>, \<open>1\<close>, \<open>+\<close>, \<open>-\<close>, \<open>*\<close> and no
  algebraic law, so that everything proved below holds whatever the arithmetic of the
  amounts is (IEEE doubles included).  Which amounts are NaN is a parameter \<open>is_nan\<close> of
  the handlers that store amounts: SQLite stores a NaN as NULL, so a \<open>REAL NOT NULL\<close>
  column refuses it (\<open>IntegrityError\<close>); in the nullable columns \<open>discount\<close> and \<open>tax\<close>
  the model keeps the value that was bound, so that a NULL there appears as the NaN it
  came from.  A price read from the store is never NaN, the column being \<open>NOT NULL\<close>, and
  is not tested when it is bound again.

  Quantities and row ids are Python integers in the requests and 64-bit integers in the
  store: binding an integer outside the 64-bit range to a statement raises
  \<open>OverflowError\<close>.  The integers a handler reads from the store and binds again are
  within the range and are not tested.  An \<open>INTEGER\<close> column holds a REAL after an
  addition inside SQLite has overflowed, which only \<open>add_product\<close> can cause, with an
  initial quantity from \<open>2 ^ 62\<close> on; the model keeps the integer this REAL equals.
  Where Python computes with the quantity of such a row (a deduction in \<open>generate_bill\<close>,
  the sum in \<open>add_or_update_inventory\<close>) it computes in floating point; the model
  computes with integers throughout, which is exact for the rows that hold an INTEGER.
\<close>

record user_row =
  u_id :: int
  u_username :: string
  u_password :: string

record 'a product_row =
  p_id :: int
  p_name :: string
  p_description :: "string option"
  p_price :: 'a
  p_initial_quantity :: int

record inventory_row =
  i_id :: int
  i_product_id :: int
  i_batch_number :: string
  i_quantity :: int

record 'a bill_row =
  b_id :: int
  b_customer_name :: string
  b_bill_date :: string
  b_total_amount :: 'a
  b_discount :: 'a
  b_tax :: 'a

record 'a bill_item_row =
  bi_id :: int
  bi_bill_id :: int
  bi_product_id :: int
  bi_quantity :: int
  bi_price_at_purchase :: 'a

record 'a db =
  users :: "user_row list"
  products :: "'a product_row list"
  inventory :: "inventory_row list"
  bills :: "'a bill_row list"
  bill_items :: "'a bill_item_row list"
  seq_users :: int
  seq_products :: int
  seq_inventory :: int
  seq_bills :: int
  seq_bill_items :: int

text \<open>
  A connection of the \<open>sqlite3\<close> module: the committed database and the connection's
  working copy inside the transaction that the first writing statement opens.
  \<open>get_db_connection\<close> is \<open>sqlite3.connect(DATABASE)\<close> and nothing more; in particular it
  never executes \<open>PRAGMA foreign_keys = ON\<close>, so the connection keeps SQLite's default,
  under which foreign-key clauses (and their \<open>ON DELETE CASCADE\<close> actions) are not
  enforced.
\<close>

record 'a conn =
  committed :: "'a db"
  working :: "'a db"
  foreign_keys :: bool

definition sqlite3_connect :: "'a db \<Rightarrow> 'a conn" where
  "sqlite3_connect d = \<lparr>committed = d, working = d, foreign_keys = False\<rparr>"

definition get_db_connection :: "'a db \<Rightarrow> 'a conn" where
  "get_db_connection d = sqlite3_connect d"

definition execute :: "('a db \<Rightarrow> 'a db) \<Rightarrow> 'a conn \<Rightarrow> 'a conn" where
  "execute stmt c = c\<lparr>working := stmt (working c)\<rparr>"

definition commit :: "'a conn \<Rightarrow> 'a conn" where
  "commit c = c\<lparr>committed := working c\<rparr>"

definition rollback :: "'a conn \<Rightarrow> 'a conn" where
  "rollback c = c\<lparr>working := committed c\<rparr>"

text \<open>Closing a connection discards whatever was not committed.\<close>

definition close :: "'a conn \<Rightarrow> 'a db" where
  "close c = committed c"

text \<open>Closing a connection that is dropped without \<open>close()\<close>: the handler returns from an
  \<open>except\<close> branch or dies of an unhandled exception, and the connection goes with the
  request.  What it had not committed is lost.  (Until it is collected it may hold the
  write lock; the model has no locks.)\<close>

definition discard :: "'a conn \<Rightarrow> 'a db" where
  "discard c = committed c"

text \<open>The integers that can be bound to a statement.\<close>

definition int64 :: "int \<Rightarrow> bool" where
  "int64 n = (- (2 ^ 63) \<le> n \<and> n < 2 ^ 63)"

text \<open>
  The integers Python converts to a float: the conversion raises \<open>OverflowError\<close> from
  \<open>2 ^ 1024 - 2 ^ 970\<close> on, where the nearest double would be infinite.
\<close>

definition float_convertible :: "int \<Rightarrow> bool" where
  "float_convertible n = (\<bar>n\<bar> < 2 ^ 1024 - 2 ^ 970)"

text \<open>
  The double nearest to an integer (53 significant bits, ties to even), as an integer.
  It is used below \<open>2 ^ 65\<close> only.
\<close>

fun bit_length :: "nat \<Rightarrow> nat" where
  "bit_length n = (if n = 0 then 0 else Suc (bit_length (n div 2)))"

declare bit_length.simps [simp del]

definition nearest_double_nat :: "nat \<Rightarrow> nat" where
  "nearest_double_nat n =
     (if bit_length n \<le> 53 then n
      else let e = bit_length n - 53; m = n div 2 ^ e; r = n mod 2 ^ e
           in (if 2 ^ e < 2 * r \<or> (2 * r = 2 ^ e \<and> odd m) then m + 1 else m) * 2 ^ e)"

definition nearest_double :: "int \<Rightarrow> int" where
  "nearest_double i =
     (if i < 0 then - int (nearest_double_nat (nat (- i))) else int (nearest_double_nat (nat i)))"

text \<open>
  Addition of two integers inside SQLite: 64-bit, and when the sum leaves the range both
  operands are converted to doubles and added as such; the result is then a REAL.
\<close>

definition sqlite_add :: "int \<Rightarrow> int \<Rightarrow> int" where
  "sqlite_add a b =
     (if int64 (a + b) then a + b
      else nearest_double (nearest_double a + nearest_double b))"

text \<open>
  AUTOINCREMENT: the new rowid is one more than the largest rowid that ever existed in
  the table, that is the larger of the table's \<open>sqlite_sequence\<close> entry and the rowids
  present.
\<close>

definition next_rowid :: "int \<Rightarrow> int list \<Rightarrow> int" where
  "next_rowid s ids = fold max ids s + 1"

subsection \<open>The SQL statements of the handlers\<close>

definition select_product :: "int \<Rightarrow> 'a db \<Rightarrow> 'a product_row option" where
  \<comment> \<open>\<open>SELECT ... FROM products WHERE id = ?\<close>, \<open>fetchone()\<close>\<close>
  "select_product pid d = find (\<lambda>p. p_id p = pid) (products d)"

definition select_inventory_fifo :: "int \<Rightarrow> 'a db \<Rightarrow> (int \<times> int) list" where
  \<comment> \<open>\<open>SELECT id, quantity FROM inventory WHERE product_id = ? ORDER BY id ASC\<close>\<close>
  "select_inventory_fifo pid d =
     map (\<lambda>r. (i_id r, i_quantity r))
       (sort_key i_id (filter (\<lambda>r. i_product_id r = pid) (inventory d)))"

definition delete_inventory :: "int \<Rightarrow> 'a db \<Rightarrow> 'a db" where
  \<comment> \<open>\<open>DELETE FROM inventory WHERE id = ?\<close>\<close>
  "delete_inventory bid d = d\<lparr>inventory := filter (\<lambda>r. i_id r \<noteq> bid) (inventory d)\<rparr>"

definition update_inventory_quantity :: "int \<Rightarrow> int \<Rightarrow> 'a db \<Rightarrow> 'a db" where
  \<comment> \<open>\<open>UPDATE inventory SET quantity = ? WHERE id = ?\<close>\<close>
  "update_inventory_quantity new_q bid d =
     d\<lparr>inventory := map (\<lambda>r. if i_id r = bid then r\<lparr>i_quantity := new_q\<rparr> else r) (inventory d)\<rparr>"

definition insert_bill :: "string \<Rightarrow> string \<Rightarrow> 'a \<Rightarrow> 'a \<Rightarrow> 'a \<Rightarrow> 'a db \<Rightarrow> 'a db" where
  \<comment> \<open>\<open>INSERT INTO bills (customer_name, bill_date, total_amount, discount, tax)\<close>\<close>
  "insert_bill cname bdate amount disc tax d =
     (let rid = next_rowid (seq_bills d) (map b_id (bills d)) in
      d\<lparr>bills := bills d @ [\<lparr>b_id = rid, b_customer_name = cname, b_bill_date = bdate,
                               b_total_amount = amount, b_discount = disc, b_tax = tax\<rparr>],
        seq_bills := rid\<rparr>)"

definition insert_bill_item :: "int \<Rightarrow> int \<Rightarrow> int \<Rightarrow> 'a \<Rightarrow> 'a db \<Rightarrow> 'a db" where
  \<comment> \<open>\<open>INSERT INTO bill_items (bill_id, product_id, quantity, price_at_purchase)\<close>\<close>
  "insert_bill_item bid pid q price d =
     (let rid = next_rowid (seq_bill_items d) (map bi_id (bill_items d)) in
      d\<lparr>bill_items := bill_items d @ [\<lparr>bi_id = rid, bi_bill_id = bid, bi_product_id = pid,
                                         bi_quantity = q, bi_price_at_purchase = price\<rparr>],
        seq_bill_items := rid\<rparr>)"

section \<open>POST /bill: generate_bill\<close>

text \<open>
  The JSON body.  A field that the handler inspects dynamically keeps the shape of its
  JSON value: \<open>quantity\<close> may be absent or null (\<open>JNull\<close>), a boolean, an integer, or
  anything else (a float, a string, a list, an object: \<open>JOther\<close>).  \<open>product_id\<close> is an
  integer or absent, \<open>discount\<close> and \<open>tax_rate\<close> are floats or absent (a JSON number
  may be infinite: \<open>1e999\<close>).
\<close>

datatype jval = JNull | JBool bool | JInt int | JOther

record bill_item_req =
  it_product_id :: "int option"
  it_quantity :: jval

record 'a bill_req =
  rq_customer_name :: "string option"
  rq_items :: "bill_item_req list"
  rq_discount :: "'a option"
  rq_tax_rate :: "'a option"

text \<open>
  The failures of the handler.  The first two are the early 400 returns; the next four
  are the \<open>ValueError\<close>s raised inside the \<open>try\<close> block, with the product id their
  message names; \<open>ServerError\<close> is any other exception raised there, which the branch
  \<open>except Exception\<close> answers with status 500 after the same rollback.  With the types
  above these are: \<open>OverflowError\<close> when an integer of the request cannot be bound or
  cannot be converted to a float, and \<open>IntegrityError\<close> when the total is NaN.
\<close>

datatype bill_error =
    RequiredFields
  | ItemFieldsRequired
  | InvalidQuantity int
  | ProductNotFound int
  | InsufficientStock int
  | ServerError

text \<open>\<open>isinstance(v, int)\<close>: Python's \<open>bool\<close> is a subclass of \<open>int\<close>.\<close>

fun as_int :: "jval \<Rightarrow> int option" where
  "as_int (JInt n) = Some n"
| "as_int (JBool b) = Some (if b then 1 else 0)"
| "as_int JNull = None"
| "as_int JOther = None"

text \<open>The loop over \<open>available_inventory\<close> (lines 324 to 337).\<close>

fun plan_deduction :: "(int \<times> int) list \<Rightarrow> int \<Rightarrow> (int \<times> int) list \<Rightarrow> int \<times> (int \<times> int) list" where
  "plan_deduction [] current_quantity_needed deducted_from_batches =
     (current_quantity_needed, deducted_from_batches)"
| "plan_deduction ((batch_id, batch_quantity) # rest) current_quantity_needed deducted_from_batches =
     (if current_quantity_needed \<le> 0 then (current_quantity_needed, deducted_from_batches)
      else if batch_quantity \<ge> current_quantity_needed
      then plan_deduction rest 0
             (deducted_from_batches @ [(batch_quantity - current_quantity_needed, batch_id)])
      else plan_deduction rest (current_quantity_needed - batch_quantity)
             (deducted_from_batches @ [(0, batch_id)]))"

text \<open>The loop over \<open>deducted_from_batches\<close> (lines 342 to 346).\<close>

fun apply_deductions :: "(int \<times> int) list \<Rightarrow> 'a conn \<Rightarrow> 'a conn" where
  "apply_deductions [] c = c"
| "apply_deductions ((new_q, b) # rest) c =
     apply_deductions rest
       (if new_q = 0 then execute (delete_inventory b) c
        else execute (update_inventory_quantity new_q b) c)"

text \<open>
  The body of \<open>for item in items\<close> (lines 303 to 350).  It returns the item's total and
  the tuple appended to \<open>bill_items_to_insert\<close>, or the exception it raises.  The first
  statement that binds \<open>product_id\<close> is the \<open>SELECT\<close> of line 311.  The product of a
  float price and an integer quantity (line 348, after the deductions) converts the
  integer first: \<open>to_float\<close> is that conversion.
\<close>

definition process_item ::
  "(int \<Rightarrow> 'a::times) \<Rightarrow> 'a conn \<Rightarrow> bill_item_req \<Rightarrow> (bill_error + 'a \<times> (int \<times> int \<times> 'a)) \<times> 'a conn" where
  "process_item to_float c item =
     (case (it_product_id item, it_quantity item) of
        (None, _) \<Rightarrow> (Inl ItemFieldsRequired, c)
      | (Some product_id, qv) \<Rightarrow>
          if product_id = 0 \<or> qv = JNull then (Inl ItemFieldsRequired, c)
          else (case as_int qv of
                  None \<Rightarrow> (Inl (InvalidQuantity product_id), c)
                | Some quantity_requested \<Rightarrow>
                    if quantity_requested \<le> 0 then (Inl (InvalidQuantity product_id), c)
                    else if \<not> int64 product_id then (Inl ServerError, c)
                    else (case select_product product_id (working c) of
                            None \<Rightarrow> (Inl (ProductNotFound product_id), c)
                          | Some product \<Rightarrow>
                              let product_price = p_price product;
                                  available_inventory = select_inventory_fifo product_id (working c);
                                  (current_quantity_needed, deducted_from_batches) =
                                     plan_deduction available_inventory quantity_requested []
                              in if current_quantity_needed > 0
                                 then (Inl (InsufficientStock product_id), c)
                                 else let c' = apply_deductions deducted_from_batches c
                                      in if \<not> float_convertible quantity_requested
                                         then (Inl ServerError, c')
                                         else (Inr (product_price * to_float quantity_requested,
                                                    (product_id, quantity_requested, product_price)),
                                               c'))))"

fun bill_items_loop ::
  "(int \<Rightarrow> 'a::{plus,times}) \<Rightarrow> 'a conn \<Rightarrow> bill_item_req list \<Rightarrow> 'a \<Rightarrow> (int \<times> int \<times> 'a) list
     \<Rightarrow> (bill_error + 'a \<times> (int \<times> int \<times> 'a) list) \<times> 'a conn" where
  "bill_items_loop to_float c [] total_amount bill_items_to_insert =
     (Inr (total_amount, bill_items_to_insert), c)"
| "bill_items_loop to_float c (item # rest) total_amount bill_items_to_insert =
     (case process_item to_float c item of
        (Inl e, c') \<Rightarrow> (Inl e, c')
      | (Inr (item_total, line), c') \<Rightarrow>
          bill_items_loop to_float c' rest (total_amount + item_total) (bill_items_to_insert @ [line]))"

text \<open>
  The loop over \<open>bill_items_to_insert\<close> (lines 362 to 366).  The quantity of the request
  is bound here for the first time.
\<close>

fun insert_bill_items :: "int \<Rightarrow> (int \<times> int \<times> 'a) list \<Rightarrow> 'a conn \<Rightarrow> bill_error + 'a conn" where
  "insert_bill_items bill_id [] c = Inr c"
| "insert_bill_items bill_id ((product_id, quantity, price_at_purchase) # rest) c =
     (if \<not> int64 quantity then Inl ServerError
      else insert_bill_items bill_id rest
             (execute (insert_bill_item bill_id product_id quantity price_at_purchase) c))"

text \<open>
  The handler.  \<open>now\<close> is \<open>datetime.now().isoformat()\<close>.  The result is the response
  (the error, or \<open>bill_id\<close> and \<open>total_amount\<close>) and the database left behind.  Every
  exception inside the \<open>try\<close> block ends in \<open>conn.rollback()\<close> and \<open>conn.close()\<close>; the
  \<open>INSERT\<close> into \<open>bills\<close> raises when the total is NaN (\<open>total_amount REAL NOT NULL\<close>).
\<close>

definition generate_bill ::
  "(int \<Rightarrow> 'a::{zero,one,plus,minus,times}) \<Rightarrow> ('a \<Rightarrow> bool) \<Rightarrow> string \<Rightarrow> 'a db \<Rightarrow> 'a bill_req
     \<Rightarrow> (bill_error + int \<times> 'a) \<times> 'a db" where
  "generate_bill to_float is_nan now d data =
     (let discount = (case rq_discount data of None \<Rightarrow> 0 | Some x \<Rightarrow> x);
          tax_rate = (case rq_tax_rate data of None \<Rightarrow> 0 | Some x \<Rightarrow> x)
      in case rq_customer_name data of
           None \<Rightarrow> (Inl RequiredFields, d)
         | Some customer_name \<Rightarrow>
             if customer_name = [] \<or> rq_items data = [] then (Inl RequiredFields, d)
             else (case bill_items_loop to_float (get_db_connection d) (rq_items data) 0 [] of
                     (Inl e, c) \<Rightarrow> (Inl e, close (rollback c))
                   | (Inr (total_amount, bill_items_to_insert), c) \<Rightarrow>
                       let total_amount_after_discount = total_amount * (1 - discount);
                           final_total_amount = total_amount_after_discount * (1 + tax_rate)
                       in if is_nan final_total_amount then (Inl ServerError, close (rollback c))
                          else let c1 = execute (insert_bill customer_name now final_total_amount
                                                   discount tax_rate) c;
                                   bill_id = seq_bills (working c1)
                               in (case insert_bill_items bill_id bill_items_to_insert c1 of
                                     Inl e \<Rightarrow> (Inl e, close (rollback c1))
                                   | Inr c2 \<Rightarrow>
                                       (Inr (bill_id, final_total_amount), close (commit c2)))))"


section \<open>The other handlers\<close>

subsection \<open>Statements\<close>

definition insert_user :: "string \<Rightarrow> string \<Rightarrow> 'a db \<Rightarrow> 'a db" where
  \<comment> \<open>\<open>INSERT INTO users (username, password)\<close>\<close>
  "insert_user uname pw d =
     (let rid = next_rowid (seq_users d) (map u_id (users d)) in
      d\<lparr>users := users d @ [\<lparr>u_id = rid, u_username = uname, u_password = pw\<rparr>],
        seq_users := rid\<rparr>)"

definition insert_product :: "string \<Rightarrow> string option \<Rightarrow> 'a \<Rightarrow> int \<Rightarrow> 'a db \<Rightarrow> 'a db" where
  \<comment> \<open>\<open>INSERT INTO products (name, description, price, initial_quantity)\<close>\<close>
  "insert_product pname descr price iq d =
     (let rid = next_rowid (seq_products d) (map p_id (products d)) in
      d\<lparr>products := products d @ [\<lparr>p_id = rid, p_name = pname, p_description = descr,
                                     p_price = price, p_initial_quantity = iq\<rparr>],
        seq_products := rid\<rparr>)"

definition insert_inventory :: "int \<Rightarrow> string \<Rightarrow> int \<Rightarrow> 'a db \<Rightarrow> 'a db" where
  \<comment> \<open>\<open>INSERT INTO inventory (product_id, batch_number, quantity)\<close>\<close>
  "insert_inventory pid bn q d =
     (let rid = next_rowid (seq_inventory d) (map i_id (inventory d)) in
      d\<lparr>inventory := inventory d @ [\<lparr>i_id = rid, i_product_id = pid, i_batch_number = bn,
                                       i_quantity = q\<rparr>],
        seq_inventory := rid\<rparr>)"

definition select_batch :: "int \<Rightarrow> string \<Rightarrow> 'a db \<Rightarrow> inventory_row option" where
  \<comment> \<open>\<open>SELECT id, quantity FROM inventory WHERE product_id = ? AND batch_number = ?\<close>\<close>
  "select_batch pid bn d =
     find (\<lambda>r. i_product_id r = pid \<and> i_batch_number r = bn) (inventory d)"

definition insert_or_ignore_inventory :: "int \<Rightarrow> string \<Rightarrow> int \<Rightarrow> 'a db \<Rightarrow> 'a db" where
  \<comment> \<open>\<open>INSERT OR IGNORE\<close>: skipped when \<open>UNIQUE(product_id, batch_number)\<close> would be violated;
      the skipped row still uses up a rowid of the \<open>sqlite_sequence\<close> counter\<close>
  "insert_or_ignore_inventory pid bn q d =
     (case select_batch pid bn d of
        Some _ \<Rightarrow> d\<lparr>seq_inventory := next_rowid (seq_inventory d) (map i_id (inventory d))\<rparr>
      | None \<Rightarrow> insert_inventory pid bn q d)"

definition add_inventory_quantity :: "int \<Rightarrow> int \<Rightarrow> string \<Rightarrow> 'a db \<Rightarrow> 'a db" where
  \<comment> \<open>\<open>UPDATE inventory SET quantity = quantity + ? WHERE product_id = ? AND batch_number = ?\<close>\<close>
  "add_inventory_quantity q pid bn d =
     d\<lparr>inventory :=
         map (\<lambda>r. if i_product_id r = pid \<and> i_batch_number r = bn
                   then r\<lparr>i_quantity := sqlite_add (i_quantity r) q\<rparr> else r) (inventory d)\<rparr>"

definition update_product_row :: "string \<Rightarrow> string option \<Rightarrow> 'a \<Rightarrow> int \<Rightarrow> 'a db \<Rightarrow> 'a db" where
  \<comment> \<open>\<open>UPDATE products SET name = ?, description = ?, price = ? WHERE id = ?\<close>\<close>
  "update_product_row pname descr price pid d =
     d\<lparr>products :=
         map (\<lambda>p. if p_id p = pid
                   then p\<lparr>p_name := pname, p_description := descr, p_price := price\<rparr> else p)
           (products d)\<rparr>"

text \<open>
  \<open>DELETE FROM products WHERE id = ?\<close>.  The schema declares \<open>ON DELETE CASCADE\<close> on
  \<open>inventory.product_id\<close> and on \<open>bill_items.product_id\<close>; SQLite performs these actions
  only on a connection whose foreign-key enforcement is on (\<open>fk\<close>).
\<close>

definition delete_product_row :: "bool \<Rightarrow> int \<Rightarrow> 'a db \<Rightarrow> 'a db" where
  "delete_product_row fk pid d =
     (let d1 = d\<lparr>products := filter (\<lambda>p. p_id p \<noteq> pid) (products d)\<rparr>
      in if fk \<and> (\<exists>p \<in> set (products d). p_id p = pid)
         then d1\<lparr>inventory := filter (\<lambda>r. i_product_id r \<noteq> pid) (inventory d1),
                 bill_items := filter (\<lambda>b. bi_product_id b \<noteq> pid) (bill_items d1)\<rparr>
         else d1)"

text \<open>Python's \<open>str\<close> of an integer, for the f-string \<open>f"INITIAL-{product_id}"\<close>.\<close>

fun digits :: "nat \<Rightarrow> string" where
  "digits n = (if n < 10 then [''0123456789'' ! n]
               else digits (n div 10) @ [''0123456789'' ! (n mod 10)])"

declare digits.simps [simp del]

definition str_int :: "int \<Rightarrow> string" where
  "str_int n = (if n < 0 then ''-'' @ digits (nat (- n)) else digits (nat n))"

subsection \<open>Users\<close>

record user_req =
  ur_username :: "string option"
  ur_password :: "string option"

text \<open>
  The handlers below return the status code of their response and the database left
  behind.  A field tested with \<open>all([...])\<close> fails the test when it is absent or empty.
  An exception that no \<open>except\<close> branch of the handler catches ends the request with
  status 500.  The ids that \<open>update_product\<close>, \<open>delete_product\<close> and
  \<open>delete_inventory_batch\<close> take from the URL are taken within the 64-bit range.
\<close>

definition register_user :: "'a db \<Rightarrow> user_req \<Rightarrow> nat \<times> 'a db" where
  "register_user d data =
     (case (ur_username data, ur_password data) of
        (Some username, Some password) \<Rightarrow>
          if username = [] \<or> password = [] then (400, d)
          else let c = get_db_connection d in
               if \<exists>u \<in> set (users (working c)). u_username u = username
               then (409, close c)
               else (201, close (commit (execute (insert_user username password) c)))
      | _ \<Rightarrow> (400, d))"

definition login_user :: "'a db \<Rightarrow> user_req \<Rightarrow> nat \<times> 'a db" where
  "login_user d data =
     (case (ur_username data, ur_password data) of
        (Some username, Some password) \<Rightarrow>
          if username = [] \<or> password = [] then (400, d)
          else let c = get_db_connection d in
               (case find (\<lambda>u. u_username u = username \<and> u_password u = password) (users (working c)) of
                  Some user \<Rightarrow> (200, close c)
                | None \<Rightarrow> (401, close c))
      | _ \<Rightarrow> (400, d))"

subsection \<open>Products\<close>

record 'a product_req =
  pr_name :: "string option"
  pr_description :: "string option"
  pr_price :: "'a option"
  pr_initial_quantity :: "int option"

definition get_products :: "'a db \<Rightarrow> 'a product_row list \<times> 'a db" where
  "get_products d = (let c = get_db_connection d in (products (working c), close c))"

text \<open>
  \<open>add_product\<close> returns the status and the new product's id.  The \<open>INSERT\<close> into
  \<open>products\<close> binds \<open>initial_quantity\<close> (\<open>OverflowError\<close>, answered 500 by
  \<open>except Exception\<close>) and is refused (\<open>IntegrityError\<close>, answered 409) when the price is
  NaN or the name is taken; both branches return without closing the connection.  The
  product row is committed before the initial batch is written; the batch is inserted
  with \<open>initial_quantity\<close> and then updated by adding \<open>initial_quantity\<close> inside SQLite.
\<close>

definition add_product :: "('a \<Rightarrow> bool) \<Rightarrow> 'a db \<Rightarrow> 'a product_req \<Rightarrow> (nat \<times> int option) \<times> 'a db" where
  "add_product is_nan d data =
     (let initial_quantity = (case pr_initial_quantity data of None \<Rightarrow> 0 | Some q \<Rightarrow> q)
      in case (pr_name data, pr_price data) of
           (Some name, Some price) \<Rightarrow>
             if name = [] then ((400, None), d)
             else let c = get_db_connection d in
                  if \<not> int64 initial_quantity then ((500, None), discard c)
                  else if is_nan price \<or> (\<exists>p \<in> set (products (working c)). p_name p = name)
                  then ((409, None), discard c)
                  else let c1 = execute (insert_product name (pr_description data) price initial_quantity) c;
                           product_id = seq_products (working c1);
                           c2 = commit c1;
                           c3 = (if initial_quantity > 0
                                 then let batch_number = ''INITIAL-'' @ str_int product_id in
                                      commit
                                        (execute (add_inventory_quantity initial_quantity product_id batch_number)
                                           (execute (insert_or_ignore_inventory product_id batch_number initial_quantity) c2))
                                 else c2)
                       in ((201, Some product_id), close c3)
         | _ \<Rightarrow> ((400, None), d))"

text \<open>
  \<open>update_product\<close> has no handler for \<open>IntegrityError\<close>: renaming a product to the name
  of another one, or giving it a NaN price, fails the request (500) without a commit.
\<close>

definition update_product :: "('a \<Rightarrow> bool) \<Rightarrow> 'a db \<Rightarrow> int \<Rightarrow> 'a product_req \<Rightarrow> nat \<times> 'a db" where
  "update_product is_nan d product_id data =
     (case (pr_name data, pr_price data) of
        (Some name, Some price) \<Rightarrow>
          if name = [] then (400, d)
          else let c = get_db_connection d in
               if (\<exists>p \<in> set (products (working c)). p_id p = product_id)
                  \<and> (is_nan price
                       \<or> (\<exists>p \<in> set (products (working c)). p_id p \<noteq> product_id \<and> p_name p = name))
               then (500, discard c)
               else let rows_affected = length (filter (\<lambda>p. p_id p = product_id) (products (working c)));
                        c1 = commit (execute (update_product_row name (pr_description data) price product_id) c)
                    in if rows_affected = 0 then (404, close c1) else (200, close c1)
      | _ \<Rightarrow> (400, d))"

definition delete_product :: "'a db \<Rightarrow> int \<Rightarrow> nat \<times> 'a db" where
  "delete_product d product_id =
     (let c = get_db_connection d;
          rows_affected = length (filter (\<lambda>p. p_id p = product_id) (products (working c)));
          c1 = commit (execute (delete_product_row (foreign_keys c) product_id) c)
      in if rows_affected = 0 then (404, close c1) else (200, close c1))"

subsection \<open>Inventory\<close>

record inventory_req =
  ir_product_id :: "int option"
  ir_batch_number :: "string option"
  ir_quantity :: jval

record 'a inventory_view =
  iv_id :: int
  iv_product_name :: string
  iv_description :: "string option"
  iv_price :: 'a
  iv_batch_number :: string
  iv_quantity :: int
  iv_product_id :: int

definition get_inventory :: "'a db \<Rightarrow> 'a inventory_view list \<times> 'a db" where
  "get_inventory d =
     (let c = get_db_connection d in
      (concat (map (\<lambda>i. map (\<lambda>p. \<lparr>iv_id = i_id i, iv_product_name = p_name p,
                                     iv_description = p_description p, iv_price = p_price p,
                                     iv_batch_number = i_batch_number i, iv_quantity = i_quantity i,
                                     iv_product_id = i_product_id i\<rparr>)
                          (filter (\<lambda>p. i_product_id i = p_id p) (products (working c))))
                 (inventory (working c))),
       close c))"

text \<open>
  \<open>add_or_update_inventory\<close> catches no exception: an integer that cannot be bound
  (\<open>product_id\<close> in the first \<open>SELECT\<close>, the new quantity in the \<open>UPDATE\<close> or the
  \<open>INSERT\<close>) ends the request with status 500 and nothing written.  The sum
  \<open>existing_batch['quantity'] + quantity\<close> is Python's.
\<close>

definition add_or_update_inventory :: "'a db \<Rightarrow> inventory_req \<Rightarrow> nat \<times> 'a db" where
  "add_or_update_inventory d data =
     (case (ir_product_id data, ir_batch_number data) of
        (Some product_id, Some batch_number) \<Rightarrow>
          if product_id = 0 \<or> batch_number = [] \<or> ir_quantity data = JNull then (400, d)
          else (case as_int (ir_quantity data) of
                  None \<Rightarrow> (400, d)
                | Some quantity \<Rightarrow>
                    if quantity \<le> 0 then (400, d)
                    else let c = get_db_connection d in
                         if \<not> int64 product_id then (500, discard c)
                         else (case select_product product_id (working c) of
                            None \<Rightarrow> (404, close c)
                          | Some product \<Rightarrow>
                              (case select_batch product_id batch_number (working c) of
                                 Some existing_batch \<Rightarrow>
                                   let new_quantity = i_quantity existing_batch + quantity in
                                   if \<not> int64 new_quantity then (500, discard c)
                                   else (201, close (commit (execute
                                      (update_inventory_quantity new_quantity (i_id existing_batch)) c)))
                               | None \<Rightarrow>
                                   if \<not> int64 quantity then (500, discard c)
                                   else (201, close (commit (execute
                                      (insert_inventory product_id batch_number quantity) c))))))
      | _ \<Rightarrow> (400, d))"

definition delete_inventory_batch :: "'a db \<Rightarrow> int \<Rightarrow> nat \<times> 'a db" where
  "delete_inventory_batch d inventory_id =
     (let c = get_db_connection d;
          rows_affected = length (filter (\<lambda>r. i_id r = inventory_id) (inventory (working c)));
          c1 = commit (execute (delete_inventory inventory_id) c)
      in if rows_affected = 0 then (404, close c1) else (200, close c1))"

subsection \<open>GET /bills\<close>

record 'a bill_item_view =
  v_quantity :: int
  v_price_at_purchase :: 'a
  v_product_name :: string
  v_description :: "string option"

text \<open>
  \<open>SELECT * FROM bills ORDER BY bill_date DESC\<close>: \<open>bill_date\<close> is a TEXT column, compared
  bytewise, which is the lexicographic order of strings.  SQL leaves the order of rows
  with equal dates open; SQLite returns them in insertion order, and so does the stable
  sort here.
\<close>

definition select_bills_desc :: "'a db \<Rightarrow> 'a bill_row list" where
  "select_bills_desc d = rev (sort_key b_bill_date (rev (bills d)))"

definition select_bill_items_joined :: "int \<Rightarrow> 'a db \<Rightarrow> 'a bill_item_view list" where
  \<comment> \<open>\<open>FROM bill_items bi JOIN products p ON bi.product_id = p.id WHERE bi.bill_id = ?\<close>\<close>
  "select_bill_items_joined bid d =
     concat (map (\<lambda>bi. map (\<lambda>p. \<lparr>v_quantity = bi_quantity bi,
                                   v_price_at_purchase = bi_price_at_purchase bi,
                                   v_product_name = p_name p, v_description = p_description p\<rparr>)
                        (filter (\<lambda>p. bi_product_id bi = p_id p) (products d)))
               (filter (\<lambda>bi. bi_bill_id bi = bid) (bill_items d)))"

definition get_bills :: "'a db \<Rightarrow> ('a bill_row \<times> 'a bill_item_view list) list \<times> 'a db" where
  "get_bills d =
     (let c = get_db_connection d;
          bills_data = map (\<lambda>bill. (bill, select_bill_items_joined (b_id bill) (working c)))
                         (select_bills_desc (working c))
      in (bills_data, close c))"

subsection \<open>The public operations\<close>

datatype 'a request =
    ServeIndex
  | RegisterUser user_req
  | LoginUser user_req
  | GetProducts
  | AddProduct "'a product_req"
  | UpdateProduct int "'a product_req"
  | DeleteProduct int
  | GetInventory
  | AddOrUpdateInventory inventory_req
  | DeleteInventoryBatch int
  | GenerateBill string "'a bill_req"
  | GetBills

text \<open>
  The database after a request.  \<open>GenerateBill\<close> carries the clock reading of the
  request.
\<close>

fun handle ::
  "(int \<Rightarrow> 'a::{zero,one,plus,minus,times}) \<Rightarrow> ('a \<Rightarrow> bool) \<Rightarrow> 'a db \<Rightarrow> 'a request \<Rightarrow> 'a db" where
  "handle to_float is_nan d ServeIndex = d"
| "handle to_float is_nan d (RegisterUser data) = snd (register_user d data)"
| "handle to_float is_nan d (LoginUser data) = snd (login_user d data)"
| "handle to_float is_nan d GetProducts = snd (get_products d)"
| "handle to_float is_nan d (AddProduct data) = snd (add_product is_nan d data)"
| "handle to_float is_nan d (UpdateProduct product_id data) = snd (update_product is_nan d product_id data)"
| "handle to_float is_nan d (DeleteProduct product_id) = snd (delete_product d product_id)"
| "handle to_float is_nan d GetInventory = snd (get_inventory d)"
| "handle to_float is_nan d (AddOrUpdateInventory data) = snd (add_or_update_inventory d data)"
| "handle to_float is_nan d (DeleteInventoryBatch inventory_id) = snd (delete_inventory_batch d inventory_id)"
| "handle to_float is_nan d (GenerateBill now data) = snd (generate_bill to_float is_nan now d data)"
| "handle to_float is_nan d GetBills = snd (get_bills d)"

section \<open>Notions of the specification\<close>

text \<open>
  What the statements issued by \<open>apply_deductions\<close> do to the rows of the inventory
  table.
\<close>

fun deduct_rows :: "(int \<times> int) list \<Rightarrow> inventory_row list \<Rightarrow> inventory_row list" where
  "deduct_rows [] tbl = tbl"
| "deduct_rows ((new_q, b) # rest) tbl =
     deduct_rows rest
       (if new_q = 0 then filter (\<lambda>r. i_id r \<noteq> b) tbl
        else map (\<lambda>r. if i_id r = b then r\<lparr>i_quantity := new_q\<rparr> else r) tbl)"

text \<open>
  First-in-first-out consumption as the specification words it: walk the batches in
  order; once nothing is needed the remaining batches are untouched; a batch that covers
  the need is reduced by exactly the need (and removed when that leaves nothing); a
  smaller batch is consumed whole and the remainder is carried forward.
\<close>

fun fifo_consume :: "int \<Rightarrow> inventory_row list \<Rightarrow> inventory_row list" where
  "fifo_consume need [] = []"
| "fifo_consume need (b # later) =
     (if need \<le> 0 then b # later
      else if need \<le> i_quantity b
      then (if i_quantity b = need then later else b\<lparr>i_quantity := i_quantity b - need\<rparr> # later)
      else fifo_consume (need - i_quantity b) later)"

text \<open>The batches of a product in ascending id (creation) order.\<close>

definition batches_of :: "int \<Rightarrow> 'a db \<Rightarrow> inventory_row list" where
  "batches_of pid d = sort_key i_id (filter (\<lambda>r. i_product_id r = pid) (inventory d))"

text \<open>A sequence of \<open>PUT /products/<id>\<close> requests.\<close>

definition update_products :: "('a \<Rightarrow> bool) \<Rightarrow> 'a db \<Rightarrow> (int \<times> 'a product_req) list \<Rightarrow> 'a db" where
  "update_products is_nan d ups =
     fold (\<lambda>(product_id, data) d. snd (update_product is_nan d product_id data)) ups d"


definition item_qty :: "bill_item_req \<Rightarrow> int" where
  "item_qty item = (case as_int (it_quantity item) of None \<Rightarrow> 0 | Some q \<Rightarrow> q)"





text \<open>
  The price the catalog holds for a product id, and the total of a request as the
  specification gives it: the sum over the items of price times quantity, times
  \<open>(1 - discount)\<close>, times \<open>(1 + tax_rate)\<close>.
\<close>

definition catalog_price :: "'a db \<Rightarrow> int \<Rightarrow> 'a option" where
  "catalog_price d pid = map_option p_price (find (\<lambda>p. p_id p = pid) (products d))"



text \<open>
  Reading a decimal numeral as Python prints it: digits without a leading zero, with a
  minus sign for a negative number.
\<close>

definition digit_value :: "char \<Rightarrow> nat option" where
  "digit_value c = map_of (zip ''0123456789'' [0, 1, 2, 3, 4, 5, 6, 7, 8, 9]) c"

fun read_digits :: "string \<Rightarrow> nat \<Rightarrow> nat option" where
  "read_digits [] acc = Some acc"
| "read_digits (c # cs) acc =
     (case digit_value c of None \<Rightarrow> None | Some v \<Rightarrow> read_digits cs (10 * acc + v))"

definition read_nat :: "string \<Rightarrow> nat option" where
  "read_nat s = (if s = [] \<or> (hd s = CHR ''0'' \<and> tl s \<noteq> []) then None else read_digits s 0)"

definition read_int :: "string \<Rightarrow> int option" where
  "read_int s =
     (case s of
        [] \<Rightarrow> None
      | c # t \<Rightarrow>
          if c = CHR ''-''
          then (case read_nat t of
                  None \<Rightarrow> None
                | Some n \<Rightarrow> if n = 0 then None else Some (- int n))
          else map_option int (read_nat s))"

text \<open>The invariant of the inventory table: every stored quantity is strictly positive.\<close>

definition inventory_positive :: "'a db \<Rightarrow> bool" where
  "inventory_positive d = (\<forall>r \<in> set (inventory d). 0 < i_quantity r)"

text \<open>
  What SQLite's primary keys and AUTOINCREMENT counters guarantee of the tables the
  statements above read: batch ids are distinct and not above the counter of
  \<open>inventory\<close>, product ids are not above the counter of \<open>products\<close>, and no inventory
  row refers to a product id above that counter.
\<close>

definition wf_db :: "'a db \<Rightarrow> bool" where
  "wf_db d =
     (distinct (map i_id (inventory d))
      \<and> list_all (\<lambda>r. i_id r \<le> seq_inventory d) (inventory d)
      \<and> list_all (\<lambda>p. p_id p \<le> seq_products d) (products d)
      \<and> list_all (\<lambda>r. i_product_id r \<le> seq_products d) (inventory d))"

text \<open>The database \<open>init_db\<close> creates when there is none: five empty tables.\<close>

definition init_db :: "'a db" where
  "init_db = \<lparr>users = [], products = [], inventory = [], bills = [], bill_items = [],
              seq_users = 0, seq_products = 0, seq_inventory = 0, seq_bills = 0,
              seq_bill_items = 0\<rparr>"

text \<open>The databases the application reaches from there, one request after the other.\<close>

inductive reachable ::
  "(int \<Rightarrow> 'a::{zero,one,plus,minus,times}) \<Rightarrow> ('a \<Rightarrow> bool) \<Rightarrow> 'a db \<Rightarrow> bool"
  for to_float is_nan where
  initial: "reachable to_float is_nan init_db"
| request: "reachable to_float is_nan d \<Longrightarrow> reachable to_float is_nan (handle to_float is_nan d req)"

subsection \<open>A small shop\<close>

definition shop :: "real db" where
  "shop = \<lparr>users = [],
           products = [\<lparr>p_id = 1, p_name = ''tea'', p_description = None, p_price = 10, p_initial_quantity = 0\<rparr>,
                       \<lparr>p_id = 2, p_name = ''jam'', p_description = Some ''plum'', p_price = 4, p_initial_quantity = 0\<rparr>],
           inventory = [\<lparr>i_id = 1, i_product_id = 1, i_batch_number = ''B1'', i_quantity = 5\<rparr>,
                        \<lparr>i_id = 2, i_product_id = 2, i_batch_number = ''J1'', i_quantity = 2\<rparr>,
                        \<lparr>i_id = 3, i_product_id = 1, i_batch_number = ''B2'', i_quantity = 5\<rparr>],
           bills = [], bill_items = [],
           seq_users = 0, seq_products = 2, seq_inventory = 3, seq_bills = 0, seq_bill_items = 0\<rparr>"

definition order :: "(int \<times> int) list \<Rightarrow> real option \<Rightarrow> real option \<Rightarrow> real bill_req" where
  "order lines disc tax =
     \<lparr>rq_customer_name = Some ''Ann'',
      rq_items = map (\<lambda>(pid, q). \<lparr>it_product_id = Some pid, it_quantity = JInt q\<rparr>) lines,
      rq_discount = disc, rq_tax_rate = tax\<rparr>"

text \<open>The shop after two bills.\<close>

definition ledger :: "real db" where
  "ledger = shop\<lparr>
     bills := [\<lparr>b_id = 1, b_customer_name = ''Ann'', b_bill_date = ''2024-05-01T10:00:00'',
                 b_total_amount = 74, b_discount = 0, b_tax = 0\<rparr>,
               \<lparr>b_id = 2, b_customer_name = ''Bob'', b_bill_date = ''2024-05-02T09:30:00'',
                 b_total_amount = 20, b_discount = 0, b_tax = 0\<rparr>],
     bill_items := [\<lparr>bi_id = 1, bi_bill_id = 1, bi_product_id = 1, bi_quantity = 7, bi_price_at_purchase = 10\<rparr>,
                    \<lparr>bi_id = 2, bi_bill_id = 1, bi_product_id = 2, bi_quantity = 1, bi_price_at_purchase = 4\<rparr>,
                    \<lparr>bi_id = 3, bi_bill_id = 2, bi_product_id = 1, bi_quantity = 2, bi_price_at_purchase = 10\<rparr>],
     seq_bills := 2, seq_bill_items := 3\<rparr>"

subsection \<open>Amounts with infinities and NaN\<close>

text \<open>
  An arithmetic of amounts for the examples in which a total is NaN: exact on finite
  values, with the infinities and the NaN of IEEE arithmetic.  JSON's \<open>1e999\<close> is
  \<open>PosInf\<close>.
\<close>

datatype xfloat = Finite real | PosInf | NegInf | NaN

fun negate :: "xfloat \<Rightarrow> xfloat" where
  "negate (Finite a) = Finite (- a)"
| "negate PosInf = NegInf"
| "negate NegInf = PosInf"
| "negate NaN = NaN"

instantiation xfloat :: "{zero, one, plus, minus, times}"
begin

definition zero_xfloat :: xfloat where
  "zero_xfloat = Finite 0"

definition one_xfloat :: xfloat where
  "one_xfloat = Finite 1"

fun plus_xfloat :: "xfloat \<Rightarrow> xfloat \<Rightarrow> xfloat" where
  "plus_xfloat NaN y = NaN"
| "plus_xfloat x NaN = NaN"
| "plus_xfloat (Finite a) (Finite b) = Finite (a + b)"
| "plus_xfloat PosInf NegInf = NaN"
| "plus_xfloat NegInf PosInf = NaN"
| "plus_xfloat PosInf y = PosInf"
| "plus_xfloat NegInf y = NegInf"
| "plus_xfloat (Finite a) y = y"

definition minus_xfloat :: "xfloat \<Rightarrow> xfloat \<Rightarrow> xfloat" where
  "minus_xfloat x y = x + negate y"

fun times_xfloat :: "xfloat \<Rightarrow> xfloat \<Rightarrow> xfloat" where
  "times_xfloat NaN y = NaN"
| "times_xfloat x NaN = NaN"
| "times_xfloat (Finite a) (Finite b) = Finite (a * b)"
| "times_xfloat (Finite a) y = (if a = 0 then NaN else if 0 < a then y else negate y)"
| "times_xfloat x (Finite b) = (if b = 0 then NaN else if 0 < b then x else negate x)"
| "times_xfloat PosInf y = y"
| "times_xfloat NegInf y = negate y"

instance ..

end







section \<open>Supporting lemmas\<close>

subsection \<open>The deduction plan and its execution\<close>

lemma apply_deductions_frame:
  "committed (apply_deductions ds c) = committed c"
  "foreign_keys (apply_deductions ds c) = foreign_keys c"
  "products (working (apply_deductions ds c)) = products (working c)"
  "bills (working (apply_deductions ds c)) = bills (working c)"
  "bill_items (working (apply_deductions ds c)) = bill_items (working c)"
  "users (working (apply_deductions ds c)) = users (working c)"
  "seq_bills (working (apply_deductions ds c)) = seq_bills (working c)"
  "seq_bill_items (working (apply_deductions ds c)) = seq_bill_items (working c)"
  "seq_products (working (apply_deductions ds c)) = seq_products (working c)"
  "seq_inventory (working (apply_deductions ds c)) = seq_inventory (working c)"
  "seq_users (working (apply_deductions ds c)) = seq_users (working c)"
  by (induction ds c rule: apply_deductions.induct;
      simp add: execute_def delete_inventory_def update_inventory_quantity_def)+

lemma apply_deductions_inventory:
  "inventory (working (apply_deductions ds c)) = deduct_rows ds (inventory (working c))"
  by (induction ds c rule: apply_deductions.induct)
     (simp_all add: execute_def delete_inventory_def update_inventory_quantity_def)

lemma plan_deduction_acc:
  "plan_deduction rows need acc =
     (fst (plan_deduction rows need []), acc @ snd (plan_deduction rows need []))"
proof (induction rows arbitrary: need acc)
  case Nil
  show ?case by simp
next
  case (Cons r rows)
  obtain b q where r: "r = (b, q)" by (cases r)
  show ?case
    unfolding r
    by (simp add: Cons.IH [of _ "acc @ _"] Cons.IH [of _ "[_]"])
qed

lemma plan_deduction_zero: "need \<le> 0 \<Longrightarrow> plan_deduction rows need acc = (need, acc)"
  by (cases rows; cases "hd rows") auto

lemma insort_key_map_same:
  assumes "\<And>x. f (g x) = f x"
  shows "insort_key f (g x) (map g xs) = map g (insort_key f x xs)"
  by (induction xs) (simp_all add: assms)

lemma sort_key_map_same:
  assumes "\<And>x. f (g x) = f x"
  shows "sort_key f (map g xs) = map g (sort_key f xs)"
proof (induction xs)
  case Nil
  show ?case by simp
next
  case (Cons x xs)
  have "insort_key f (g x) (map g (sort_key f xs)) = map g (insort_key f x (sort_key f xs))"
    by (rule insort_key_map_same) (rule assms)
  then show ?case using Cons by simp
qed

lemma filter_map_same:
  assumes "\<And>x. P (g x) = P x"
  shows "filter P (map g xs) = map g (filter P xs)"
  by (induction xs) (simp_all add: assms)

lemma batches_deduct_rows:
  "sort_key i_id (filter (\<lambda>r. i_product_id r = pid) (deduct_rows ds tbl))
     = deduct_rows ds (sort_key i_id (filter (\<lambda>r. i_product_id r = pid) tbl))"
proof (induction ds tbl rule: deduct_rows.induct)
  case (1 tbl)
  show ?case by simp
next
  case (2 new_q b rest tbl)
  have del: "sort_key i_id (filter (\<lambda>r. i_product_id r = pid) (filter (\<lambda>r. i_id r \<noteq> b) tbl))
        = filter (\<lambda>r. i_id r \<noteq> b) (sort_key i_id (filter (\<lambda>r. i_product_id r = pid) tbl))"
    by (simp add: filter_sort conj_commute)
  have upd: "sort_key i_id (filter (\<lambda>r. i_product_id r = pid)
                 (map (\<lambda>r. if i_id r = b then r\<lparr>i_quantity := new_q\<rparr> else r) tbl))
        = map (\<lambda>r. if i_id r = b then r\<lparr>i_quantity := new_q\<rparr> else r)
            (sort_key i_id (filter (\<lambda>r. i_product_id r = pid) tbl))"
    by (subst filter_map_same, simp, subst sort_key_map_same, simp, rule refl)
  show ?case
    using 2 del upd by simp
qed

lemma deduct_rows_fifo:
  assumes "distinct (map i_id bs)"
  shows "deduct_rows (snd (plan_deduction (map (\<lambda>r. (i_id r, i_quantity r)) bs) need [])) bs
           = fifo_consume need bs"
  using assms
proof (induction bs arbitrary: need)
  case Nil
  show ?case by simp
next
  case (Cons b bs)
  have ids: "\<forall>r \<in> set bs. i_id r \<noteq> i_id b"
    using Cons.prems by (auto simp: image_iff)
  have keep: "filter (\<lambda>r. i_id r \<noteq> i_id b) bs = bs" using ids by (simp add: filter_id_conv)
  have same: "map (\<lambda>r. if i_id r = i_id b then r\<lparr>i_quantity := q\<rparr> else r) bs = bs" for q
    using ids by (simp add: map_idI)
  have dist: "distinct (map i_id bs)" using Cons.prems by simp
  show ?case
  proof (cases "need \<le> 0")
    case True
    then show ?thesis by simp
  next
    case pos: False
    show ?thesis
    proof (cases "need \<le> i_quantity b")
      case True
      then show ?thesis using pos keep same
        by (simp add: plan_deduction_zero)
    next
      case False
      have "plan_deduction (map (\<lambda>r. (i_id r, i_quantity r)) (b # bs)) need []
            = plan_deduction (map (\<lambda>r. (i_id r, i_quantity r)) bs) (need - i_quantity b) [(0, i_id b)]"
        using pos False by simp
      also have "\<dots> = (fst (plan_deduction (map (\<lambda>r. (i_id r, i_quantity r)) bs) (need - i_quantity b) []),
                       (0, i_id b) # snd (plan_deduction (map (\<lambda>r. (i_id r, i_quantity r)) bs) (need - i_quantity b) []))"
        by (subst plan_deduction_acc) simp
      finally show ?thesis
        using pos False keep Cons.IH [OF dist] by simp
    qed
  qed
qed

subsection \<open>One item, the loop over the items, the handler\<close>

lemma process_item_Inr:
  assumes "process_item tf c item = (Inr (item_total, line), c')"
  shows "\<exists>pid q prod. it_product_id item = Some pid \<and> pid \<noteq> 0 \<and> as_int (it_quantity item) = Some q \<and> 0 < q
           \<and> int64 pid \<and> float_convertible q
           \<and> select_product pid (working c) = Some prod
           \<and> line = (pid, q, p_price prod) \<and> item_total = p_price prod * tf q
           \<and> fst (plan_deduction (select_inventory_fifo pid (working c)) q []) \<le> 0
           \<and> c' = apply_deductions (snd (plan_deduction (select_inventory_fifo pid (working c)) q [])) c"
proof -
  obtain pid where pid: "it_product_id item = Some pid"
    using assms by (cases "it_product_id item") (simp_all add: process_item_def)
  have ok1: "pid \<noteq> 0" "it_quantity item \<noteq> JNull"
    using assms pid by (auto simp: process_item_def split: if_splits)
  obtain q where q: "as_int (it_quantity item) = Some q"
    using assms pid ok1 by (cases "as_int (it_quantity item)") (simp_all add: process_item_def)
  have ok2: "0 < q" "int64 pid"
    using assms pid ok1 q by (auto simp: process_item_def split: if_splits)
  obtain prod where prod: "select_product pid (working c) = Some prod"
    using assms pid ok1 q ok2
    by (cases "select_product pid (working c)") (simp_all add: process_item_def)
  obtain n ds where plan: "plan_deduction (select_inventory_fifo pid (working c)) q [] = (n, ds)"
    by (cases "plan_deduction (select_inventory_fifo pid (working c)) q []")
  have "n \<le> 0 \<and> float_convertible q \<and> line = (pid, q, p_price prod)
          \<and> item_total = p_price prod * tf q \<and> c' = apply_deductions ds c"
    using assms pid ok1 q ok2 prod plan
    by (simp add: process_item_def Let_def split: if_splits)
  then show ?thesis using pid ok1 q ok2 prod plan by simp
qed

text \<open>Whatever the outcome, an item leaves the connection as it was or after its deductions.\<close>

lemma process_item_conn:
  assumes "process_item tf c item = (res, c')"
  shows "c' = c \<or> (\<exists>pid q. c' = apply_deductions
                        (snd (plan_deduction (select_inventory_fifo pid (working c)) q [])) c)"
proof (cases "it_product_id item")
  case None
  then show ?thesis using assms by (simp add: process_item_def)
next
  case (Some pid)
  show ?thesis
  proof (cases "as_int (it_quantity item)")
    case None
    then show ?thesis using assms Some by (auto simp: process_item_def split: if_splits)
  next
    case q: (Some q)
    show ?thesis
    proof (cases "select_product pid (working c)")
      case None
      then show ?thesis using assms Some q by (auto simp: process_item_def split: if_splits)
    next
      case prod: (Some prod)
      obtain n ds where plan: "plan_deduction (select_inventory_fifo pid (working c)) q [] = (n, ds)"
        by (cases "plan_deduction (select_inventory_fifo pid (working c)) q []")
      have "c' = c \<or> c' = apply_deductions ds c"
        using assms Some q prod plan by (auto simp: process_item_def Let_def split: if_splits)
      then show ?thesis using plan by (metis snd_conv)
    qed
  qed
qed

lemma process_item_frame:
  assumes "process_item tf c item = (r, c')"
  shows "committed c' = committed c" and "foreign_keys c' = foreign_keys c"
    and "products (working c') = products (working c)"
    and "bills (working c') = bills (working c)"
    and "bill_items (working c') = bill_items (working c)"
    and "users (working c') = users (working c)"
    and "seq_bills (working c') = seq_bills (working c)"
    and "seq_bill_items (working c') = seq_bill_items (working c)"
    and "seq_products (working c') = seq_products (working c)"
    and "seq_inventory (working c') = seq_inventory (working c)"
    and "seq_users (working c') = seq_users (working c)"
proof -
  from process_item_conn [OF assms] have "c' = c \<or> (\<exists>ds. c' = apply_deductions ds c)"
    by blast
  then show "committed c' = committed c" and "foreign_keys c' = foreign_keys c"
    and "products (working c') = products (working c)"
    and "bills (working c') = bills (working c)"
    and "bill_items (working c') = bill_items (working c)"
    and "users (working c') = users (working c)"
    and "seq_bills (working c') = seq_bills (working c)"
    and "seq_bill_items (working c') = seq_bill_items (working c)"
    and "seq_products (working c') = seq_products (working c)"
    and "seq_inventory (working c') = seq_inventory (working c)"
    and "seq_users (working c') = seq_users (working c)"
    by (auto simp: apply_deductions_frame)
qed

lemma bill_items_loop_frame:
  assumes "bill_items_loop tf c items tot acc = (r, c')"
  shows "committed c' = committed c \<and> foreign_keys c' = foreign_keys c
    \<and> products (working c') = products (working c)
    \<and> bills (working c') = bills (working c)
    \<and> bill_items (working c') = bill_items (working c)
    \<and> users (working c') = users (working c)
    \<and> seq_bills (working c') = seq_bills (working c)
    \<and> seq_bill_items (working c') = seq_bill_items (working c)
    \<and> seq_products (working c') = seq_products (working c)
    \<and> seq_inventory (working c') = seq_inventory (working c)
    \<and> seq_users (working c') = seq_users (working c)"
  using assms
proof (induction items arbitrary: c tot acc)
  case Nil
  then show ?case by simp
next
  case (Cons item rest)
  obtain r1 c1 where p: "process_item tf c item = (r1, c1)" by (cases "process_item tf c item")
  note f = process_item_frame [OF p]
  show ?case
  proof (cases r1)
    case (Inl e)
    then have "c' = c1" using Cons.prems p by simp
    then show ?thesis using f by simp
  next
    case (Inr v)
    obtain t l where v: "v = (t, l)" by (cases v)
    have "bill_items_loop tf c1 rest (tot + t) (acc @ [l]) = (r, c')"
      using Cons.prems p Inr v by simp
    from Cons.IH [OF this] show ?thesis using f by simp
  qed
qed

lemma bill_items_loop_Inr:
  assumes "bill_items_loop tf c items tot acc = (Inr (tot', lines'), c')"
  shows "\<exists>new. lines' = acc @ new
           \<and> list_all2 (\<lambda>item (pid, q, price). it_product_id item = Some pid
                 \<and> as_int (it_quantity item) = Some q
                 \<and> (\<exists>p. select_product pid (working c) = Some p \<and> p_price p = price)) items new
           \<and> tot' = foldl (\<lambda>a (pid, q, price). a + price * tf q) tot new"
  using assms
proof (induction items arbitrary: c tot acc)
  case Nil
  then show ?case by simp
next
  case (Cons item rest)
  obtain r1 c1 where p: "process_item tf c item = (r1, c1)" by (cases "process_item tf c item")
  show ?case
  proof (cases r1)
    case (Inl e)
    then show ?thesis using Cons.prems p by simp
  next
    case (Inr v)
    obtain t l where v: "v = (t, l)" by (cases v)
    have loop: "bill_items_loop tf c1 rest (tot + t) (acc @ [l]) = (Inr (tot', lines'), c')"
      using Cons.prems p Inr v by simp
    from process_item_Inr [of tf c item t l c1] p Inr v
    obtain pid q prod where it: "it_product_id item = Some pid" "as_int (it_quantity item) = Some q"
      "select_product pid (working c) = Some prod" "l = (pid, q, p_price prod)" "t = p_price prod * tf q"
      by auto
    have same: "select_product x (working c1) = select_product x (working c)" for x
      using process_item_frame(3) [OF p] by (simp add: select_product_def)
    from Cons.IH [OF loop] obtain new where new: "lines' = (acc @ [l]) @ new"
      "list_all2 (\<lambda>item (pid, q, price). it_product_id item = Some pid
                 \<and> as_int (it_quantity item) = Some q
                 \<and> (\<exists>p. select_product pid (working c) = Some p \<and> p_price p = price)) rest new"
      "tot' = foldl (\<lambda>a (pid, q, price). a + price * tf q) (tot + t) new"
      unfolding same by blast
    show ?thesis
      by (rule exI [of _ "l # new"]) (use new it in simp)
  qed
qed

text \<open>
  Where addition is associative with unit 0, the running sum of the handler is the sum
  of the lines.
\<close>

lemma running_sum_sum_list:
  fixes price_of :: "'b \<Rightarrow> 'a::monoid_add"
  shows "foldl (\<lambda>a x. a + price_of x) z xs = z + sum_list (map price_of xs)"
  by (induction xs arbitrary: z) (simp_all add: add.assoc)

lemma insert_bill_items_frame:
  assumes "insert_bill_items b ls c = Inr c'"
  shows "committed c' = committed c \<and> foreign_keys c' = foreign_keys c
    \<and> products (working c') = products (working c)
    \<and> bills (working c') = bills (working c)
    \<and> inventory (working c') = inventory (working c)
    \<and> users (working c') = users (working c)
    \<and> seq_bills (working c') = seq_bills (working c)
    \<and> seq_products (working c') = seq_products (working c)
    \<and> seq_inventory (working c') = seq_inventory (working c)
    \<and> seq_users (working c') = seq_users (working c)"
  using assms
proof (induction b ls c rule: insert_bill_items.induct)
  case (1 b c)
  then show ?case by simp
next
  case (2 b pid q price rest c)
  from "2.prems" have ok: "int64 q"
    and rest: "insert_bill_items b rest (execute (insert_bill_item b pid q price) c) = Inr c'"
    by (simp_all split: if_splits)
  from "2.IH" [OF _ rest] ok show ?case
    by (simp add: execute_def insert_bill_item_def Let_def)
qed

lemma insert_bill_items_Inl:
  "insert_bill_items b ls c = Inl e \<Longrightarrow> e = ServerError \<and> \<not> list_all (\<lambda>(pid, q, price). int64 q) ls"
  by (induction b ls c rule: insert_bill_items.induct) (auto split: if_splits)


text \<open>The shape of a successful run of the handler.\<close>

lemma generate_bill_Inr:
  assumes "generate_bill tf nan now d data = (Inr (bill_id, final), d')"
  shows "\<exists>cn tot ls c c1 c2.
           rq_customer_name data = Some cn \<and> cn \<noteq> [] \<and> rq_items data \<noteq> []
         \<and> bill_items_loop tf (get_db_connection d) (rq_items data) 0 [] = (Inr (tot, ls), c)
         \<and> final = tot * (1 - (case rq_discount data of None \<Rightarrow> 0 | Some x \<Rightarrow> x))
                       * (1 + (case rq_tax_rate data of None \<Rightarrow> 0 | Some x \<Rightarrow> x))
         \<and> \<not> nan final
         \<and> c1 = execute (insert_bill cn now final (case rq_discount data of None \<Rightarrow> 0 | Some x \<Rightarrow> x)
                            (case rq_tax_rate data of None \<Rightarrow> 0 | Some x \<Rightarrow> x)) c
         \<and> bill_id = seq_bills (working c1)
         \<and> insert_bill_items bill_id ls c1 = Inr c2
         \<and> d' = working c2"
proof -
  let ?disc = "case rq_discount data of None \<Rightarrow> 0 | Some x \<Rightarrow> x"
  let ?tax = "case rq_tax_rate data of None \<Rightarrow> 0 | Some x \<Rightarrow> x"
  obtain cn where cn: "rq_customer_name data = Some cn"
    using assms by (cases "rq_customer_name data") (simp_all add: generate_bill_def)
  have ne: "cn \<noteq> []" "rq_items data \<noteq> []"
    using assms cn by (auto simp: generate_bill_def split: if_splits)
  obtain r c where loop: "bill_items_loop tf (get_db_connection d) (rq_items data) 0 [] = (r, c)"
    by (cases "bill_items_loop tf (get_db_connection d) (rq_items data) 0 []")
  obtain tot ls where r: "r = Inr (tot, ls)"
    using assms cn ne loop by (cases r) (auto simp: generate_bill_def)
  let ?final = "tot * (1 - ?disc) * (1 + ?tax)"
  have notnan: "\<not> nan ?final"
    using assms cn ne loop r by (auto simp: generate_bill_def Let_def split: if_splits)
  let ?c1 = "execute (insert_bill cn now ?final ?disc ?tax) c"
  obtain c2 where ins: "insert_bill_items (seq_bills (working ?c1)) ls ?c1 = Inr c2"
    using assms cn ne loop r notnan
    by (cases "insert_bill_items (seq_bills (working ?c1)) ls ?c1")
       (auto simp: generate_bill_def Let_def)
  have "generate_bill tf nan now d data = (Inr (seq_bills (working ?c1), ?final), working c2)"
    using cn ne loop r notnan ins
    by (simp add: generate_bill_def Let_def close_def commit_def)
  from this [unfolded assms] have eqs:
    "final = ?final" "bill_id = seq_bills (working ?c1)" "d' = working c2"
    by (simp_all only: prod.inject sum.inject)
  show ?thesis
    unfolding eqs
    by (intro exI [of _ cn] exI [of _ tot] exI [of _ ls] exI [of _ c] exI [of _ ?c1] exI [of _ c2])
       (use cn ne loop r notnan ins in simp)
qed

lemma generate_bill_rollback:
  assumes "fst (generate_bill tf nan now d data) = Inl e"
  shows "snd (generate_bill tf nan now d data) = d"
proof (cases "rq_customer_name data")
  case None
  then show ?thesis by (simp add: generate_bill_def)
next
  case (Some cn)
  show ?thesis
  proof (cases "cn = [] \<or> rq_items data = []")
    case True
    then show ?thesis using Some by (simp add: generate_bill_def)
  next
    case False
    obtain r c where loop: "bill_items_loop tf (get_db_connection d) (rq_items data) 0 [] = (r, c)"
      by (cases "bill_items_loop tf (get_db_connection d) (rq_items data) 0 []")
    have com: "committed c = d"
      using bill_items_loop_frame [OF loop] by (simp add: get_db_connection_def sqlite3_connect_def)
    show ?thesis
    proof (cases r)
      case (Inl e')
      then show ?thesis using Some False loop com
        by (simp add: generate_bill_def close_def rollback_def)
    next
      case (Inr v)
      obtain tot ls where v: "v = (tot, ls)" by (cases v)
      let ?disc = "case rq_discount data of None \<Rightarrow> 0 | Some x \<Rightarrow> x"
      let ?tax = "case rq_tax_rate data of None \<Rightarrow> 0 | Some x \<Rightarrow> x"
      let ?final = "tot * (1 - ?disc) * (1 + ?tax)"
      let ?c1 = "execute (insert_bill cn now ?final ?disc ?tax) c"
      show ?thesis
      proof (cases "nan ?final")
        case True
        then show ?thesis using Some False loop Inr v com
          by (simp add: generate_bill_def Let_def close_def rollback_def)
      next
        case notnan: False
        show ?thesis
        proof (cases "insert_bill_items (seq_bills (working ?c1)) ls ?c1")
          case (Inl e'')
          then show ?thesis using Some False loop Inr v com notnan
            by (simp add: generate_bill_def Let_def close_def rollback_def execute_def)
        next
          case (Inr c2)
          then have "\<exists>x. fst (generate_bill tf nan now d data) = Inr x"
            using Some False loop \<open>r = Inr v\<close> v notnan by (simp add: generate_bill_def Let_def)
          then show ?thesis using assms by simp
        qed
      qed
    qed
  qed
qed


lemmas eval_defs = int64_def float_convertible_def generate_bill_def shop_def order_def get_db_connection_def sqlite3_connect_def
       process_item_def select_product_def select_inventory_fifo_def execute_def delete_inventory_def
       update_inventory_quantity_def insert_bill_def insert_bill_item_def next_rowid_def commit_def
       rollback_def close_def Let_def

lemma insert_bill_items_rows:
  assumes "insert_bill_items b ls c = Inr c'"
  shows "\<exists>rows. bill_items (working c') = bill_items (working c) @ rows
     \<and> list_all2 (\<lambda>(pid, q, price) bi. bi_bill_id bi = b \<and> bi_product_id bi = pid
                      \<and> bi_quantity bi = q \<and> bi_price_at_purchase bi = price) ls rows"
  using assms
proof (induction b ls c rule: insert_bill_items.induct)
  case (1 b c)
  then show ?case by simp
next
  case (2 b pid q price rest c)
  let ?c1 = "execute (insert_bill_item b pid q price) c"
  from "2.prems" have ok: "int64 q" and rest: "insert_bill_items b rest ?c1 = Inr c'"
    by (simp_all split: if_splits)
  obtain r where r: "bill_items (working ?c1) = bill_items (working c) @ [r]"
    "bi_bill_id r = b" "bi_product_id r = pid" "bi_quantity r = q" "bi_price_at_purchase r = price"
    by (simp add: execute_def insert_bill_item_def Let_def)
  from "2.IH" [OF _ rest] ok obtain rows where rows:
    "bill_items (working c') = bill_items (working ?c1) @ rows"
    "list_all2 (\<lambda>(pid, q, price) bi. bi_bill_id bi = b \<and> bi_product_id bi = pid
                      \<and> bi_quantity bi = q \<and> bi_price_at_purchase bi = price) rest rows"
    by blast
  show ?case
    by (rule exI [of _ "r # rows"]) (use r rows in simp)
qed

lemma update_product_frame:
  "bills (snd (update_product nan d pid data)) = bills d"
  "bill_items (snd (update_product nan d pid data)) = bill_items d"
  "inventory (snd (update_product nan d pid data)) = inventory d"
  by (simp_all add: update_product_def update_product_row_def get_db_connection_def
        sqlite3_connect_def execute_def commit_def close_def discard_def Let_def split: option.splits)

lemma update_products_frame:
  "bills (update_products nan d ups) = bills d \<and> bill_items (update_products nan d ups) = bill_items d"
  unfolding update_products_def
  by (induction ups arbitrary: d) (simp_all add: update_product_frame split: prod.splits)

lemma list_all2_chain:
  assumes "list_all2 R xs ys" and "list_all2 S ys zs"
    and "\<And>x y z. R x y \<Longrightarrow> S y z \<Longrightarrow> T x z"
  shows "list_all2 T xs zs"
  using assms(1,2)
proof (induction xs ys arbitrary: zs rule: list_all2_induct)
  case Nil
  then show ?case by simp
next
  case (Cons x xs y ys)
  then show ?case by (cases zs) (auto intro: assms(3))
qed

subsection \<open>First in, first out\<close>

lemma select_inventory_fifo_batches:
  "select_inventory_fifo pid d = map (\<lambda>r. (i_id r, i_quantity r)) (batches_of pid d)"
  by (simp add: select_inventory_fifo_def batches_of_def)

lemma set_batches_of:
  "set (batches_of pid d) = {r \<in> set (inventory d). i_product_id r = pid}"
  by (auto simp: batches_of_def)

lemma distinct_batches_of:
  assumes "distinct (map i_id (inventory d))"
  shows "distinct (map i_id (batches_of pid d))"
proof -
  have "mset (map i_id (batches_of pid d))
          = mset (map i_id (filter (\<lambda>r. i_product_id r = pid) (inventory d)))"
    by (simp add: batches_of_def)
  moreover have "distinct (map i_id (filter (\<lambda>r. i_product_id r = pid) (inventory d)))"
    using assms by (rule distinct_map_filter)
  ultimately show ?thesis
    by (metis mset_eq_imp_distinct_iff)
qed

lemma plan_deduction_entries:
  "(nq, b) \<in> set (snd (plan_deduction rows need [])) \<Longrightarrow> b \<in> fst ` set rows \<and> 0 \<le> nq"
proof (induction rows arbitrary: need)
  case Nil
  then show ?case by simp
next
  case (Cons r rows)
  obtain b0 q0 where r: "r = (b0, q0)" by (cases r)
  show ?case
  proof (cases "need \<le> 0")
    case True
    then show ?thesis using Cons.prems r by simp
  next
    case pos: False
    show ?thesis
    proof (cases "need \<le> q0")
      case True
      then show ?thesis using Cons.prems r pos by (simp add: plan_deduction_zero)
    next
      case False
      have "plan_deduction (r # rows) need []
              = (fst (plan_deduction rows (need - q0) []),
                 (0, b0) # snd (plan_deduction rows (need - q0) []))"
        using r pos False by (simp add: plan_deduction_acc [of _ _ "[_]"])
      then have "(nq, b) = (0, b0) \<or> (nq, b) \<in> set (snd (plan_deduction rows (need - q0) []))"
        using Cons.prems by simp
      then show ?thesis using Cons.IH r by auto
    qed
  qed
qed

lemma deduct_rows_other:
  assumes "\<forall>r \<in> set tbl. i_id r \<in> snd ` set ds \<longrightarrow> i_product_id r \<noteq> pid"
  shows "filter (\<lambda>r. i_product_id r = pid) (deduct_rows ds tbl) = filter (\<lambda>r. i_product_id r = pid) tbl"
  using assms
proof (induction ds tbl rule: deduct_rows.induct)
  case (1 tbl)
  show ?case by simp
next
  case (2 new_q b rest tbl)
  let ?tbl' = "if new_q = 0 then filter (\<lambda>r. i_id r \<noteq> b) tbl
               else map (\<lambda>r. if i_id r = b then r\<lparr>i_quantity := new_q\<rparr> else r) tbl"
  have b: "\<forall>r \<in> set tbl. i_id r = b \<longrightarrow> i_product_id r \<noteq> pid"
    using "2.prems" by simp
  have step: "filter (\<lambda>r. i_product_id r = pid) ?tbl' = filter (\<lambda>r. i_product_id r = pid) tbl"
  proof (cases "new_q = 0")
    case True
    have "filter (\<lambda>r. i_product_id r = pid) (filter (\<lambda>r. i_id r \<noteq> b) tbl)
            = filter (\<lambda>r. i_product_id r = pid) tbl"
      unfolding filter_filter by (rule filter_cong) (use b in auto)
    then show ?thesis using True by simp
  next
    case False
    have "filter (\<lambda>r. i_product_id r = pid) (map (\<lambda>r. if i_id r = b then r\<lparr>i_quantity := new_q\<rparr> else r) tbl)
            = filter (\<lambda>r. i_product_id r = pid) tbl"
      using b by (induction tbl) auto
    then show ?thesis using False by simp
  qed
  have "\<forall>r \<in> set ?tbl'. i_id r \<in> snd ` set rest \<longrightarrow> i_product_id r \<noteq> pid"
    using "2.prems" by (auto split: if_splits)
  from "2.IH" [OF this] step show ?case by simp
qed

lemma deduct_rows_distinct:
  "distinct (map i_id tbl) \<Longrightarrow> distinct (map i_id (deduct_rows ds tbl))"
proof (induction ds tbl rule: deduct_rows.induct)
  case (1 tbl)
  then show ?case by simp
next
  case (2 new_q b rest tbl)
  have same: "map i_id (map (\<lambda>r. if i_id r = b then r\<lparr>i_quantity := new_q\<rparr> else r) tbl) = map i_id tbl"
    by (induction tbl) auto
  show ?case
  proof (cases "new_q = 0")
    case True
    have "distinct (map i_id (filter (\<lambda>r. i_id r \<noteq> b) tbl))"
      using "2.prems" by (rule distinct_map_filter)
    with "2.IH" True show ?thesis by simp
  next
    case False
    have "distinct (map i_id (map (\<lambda>r. if i_id r = b then r\<lparr>i_quantity := new_q\<rparr> else r) tbl))"
      unfolding same by (rule "2.prems")
    with "2.IH" False show ?thesis by simp
  qed
qed

lemma deduct_rows_quantities:
  "r \<in> set (deduct_rows ds tbl) \<Longrightarrow>
     r \<in> set tbl \<or> (\<exists>(nq, b) \<in> set ds. nq \<noteq> 0 \<and> i_quantity r = nq)"
proof (induction ds tbl rule: deduct_rows.induct)
  case (1 tbl)
  then show ?case by simp
next
  case (2 new_q b rest tbl)
  from "2.IH" [OF "2.prems" [simplified]] show ?case
    by (auto split: if_splits)
qed

text \<open>One billed item: what \<open>process_item\<close> does to the inventory table.\<close>

lemma process_item_inventory:
  assumes "process_item tf c item = (Inr v, c')"
    and "distinct (map i_id (inventory (working c)))"
  shows "batches_of pid (working c')
           = (if it_product_id item = Some pid then fifo_consume (item_qty item) (batches_of pid (working c))
              else batches_of pid (working c))"
    and "distinct (map i_id (inventory (working c')))"
proof -
  obtain t l where v: "v = (t, l)" by (cases v)
  from process_item_Inr [of tf c item t l c'] assms(1) v
  obtain p q where it: "it_product_id item = Some p" "as_int (it_quantity item) = Some q"
    and c': "c' = apply_deductions (snd (plan_deduction (select_inventory_fifo p (working c)) q [])) c"
    by auto
  let ?bs = "batches_of p (working c)"
  let ?ds = "snd (plan_deduction (map (\<lambda>r. (i_id r, i_quantity r)) ?bs) q [])"
  have inv: "inventory (working c') = deduct_rows ?ds (inventory (working c))"
    unfolding c' by (simp add: apply_deductions_inventory select_inventory_fifo_batches)
  show "distinct (map i_id (inventory (working c')))"
    unfolding inv using assms(2) by (rule deduct_rows_distinct)
  have qty: "item_qty item = q" using it by (simp add: item_qty_def)
  have ds_ids: "snd ` set ?ds \<subseteq> i_id ` set ?bs"
  proof
    fix b assume "b \<in> snd ` set ?ds"
    then obtain nq where "(nq, b) \<in> set ?ds" by auto
    from plan_deduction_entries [OF this] show "b \<in> i_id ` set ?bs" by (auto simp: image_iff)
  qed
  show "batches_of pid (working c')
           = (if it_product_id item = Some pid then fifo_consume (item_qty item) (batches_of pid (working c))
              else batches_of pid (working c))"
  proof (cases "p = pid")
    case True
    have "batches_of p (working c') = deduct_rows ?ds ?bs"
      unfolding batches_of_def inv by (rule batches_deduct_rows)
    also have "\<dots> = fifo_consume q ?bs"
      by (rule deduct_rows_fifo) (rule distinct_batches_of [OF assms(2)])
    finally show ?thesis using True it qty by simp
  next
    case False
    have "\<forall>r \<in> set (inventory (working c)). i_id r \<in> snd ` set ?ds \<longrightarrow> i_product_id r \<noteq> pid"
    proof (intro ballI impI)
      fix r assume r: "r \<in> set (inventory (working c))" and "i_id r \<in> snd ` set ?ds"
      then have "i_id r \<in> i_id ` set ?bs" using ds_ids by blast
      then obtain r' where r': "r' \<in> set (inventory (working c))" "i_product_id r' = p" "i_id r' = i_id r"
        by (auto simp: set_batches_of)
      have "inj_on i_id (set (inventory (working c)))"
        using assms(2) by (simp add: distinct_map)
      then have "r' = r" using r r' by (auto dest: inj_onD)
      then show "i_product_id r \<noteq> pid" using r' False by simp
    qed
    from deduct_rows_other [OF this]
    have "batches_of pid (working c') = batches_of pid (working c)"
      unfolding batches_of_def inv by simp
    then show ?thesis using False it by simp
  qed
qed

lemma bill_items_loop_inventory:
  assumes "bill_items_loop tf c items tot acc = (Inr v, c')"
    and "distinct (map i_id (inventory (working c)))"
  shows "batches_of pid (working c')
           = fold (\<lambda>item bs. if it_product_id item = Some pid then fifo_consume (item_qty item) bs else bs)
               items (batches_of pid (working c))
         \<and> distinct (map i_id (inventory (working c')))"
  using assms
proof (induction items arbitrary: c tot acc)
  case Nil
  then show ?case by simp
next
  case (Cons item rest)
  obtain r1 c1 where p: "process_item tf c item = (r1, c1)" by (cases "process_item tf c item")
  show ?case
  proof (cases r1)
    case (Inl e)
    then show ?thesis using Cons.prems p by simp
  next
    case (Inr w)
    obtain t l where w: "w = (t, l)" by (cases w)
    have loop: "bill_items_loop tf c1 rest (tot + t) (acc @ [l]) = (Inr v, c')"
      using Cons.prems p Inr w by simp
    have p': "process_item tf c item = (Inr w, c1)" using p Inr by simp
    note one = process_item_inventory [OF p' Cons.prems(2)]
    from Cons.IH [OF loop one(2)] one(1) [of pid] show ?thesis by simp
  qed
qed

lemma generate_bill_inventory:
  assumes "generate_bill tf nan now d data = (Inr (bill_id, final), d')"
  shows "\<exists>tot ls c. bill_items_loop tf (get_db_connection d) (rq_items data) 0 [] = (Inr (tot, ls), c)
           \<and> inventory d' = inventory (working c) \<and> products d' = products d
           \<and> seq_inventory d' = seq_inventory d \<and> seq_products d' = seq_products d"
proof -
  from generate_bill_Inr [OF assms] obtain cn tot ls c c1 c2 where
    loop: "bill_items_loop tf (get_db_connection d) (rq_items data) 0 [] = (Inr (tot, ls), c)"
    and c1: "c1 = execute (insert_bill cn now final (case rq_discount data of None \<Rightarrow> 0 | Some x \<Rightarrow> x)
                            (case rq_tax_rate data of None \<Rightarrow> 0 | Some x \<Rightarrow> x)) c"
    and ins: "insert_bill_items bill_id ls c1 = Inr c2"
    and d': "d' = working c2"
    by blast
  note fr = insert_bill_items_frame [OF ins]
  have "inventory d' = inventory (working c)" "products d' = products (working c)"
    "seq_inventory d' = seq_inventory (working c)" "seq_products d' = seq_products (working c)"
    unfolding d' using fr unfolding c1 by (simp_all add: execute_def insert_bill_def Let_def)
  moreover have "products (working c) = products d" "seq_inventory (working c) = seq_inventory d"
    "seq_products (working c) = seq_products d"
    using bill_items_loop_frame [OF loop] by (simp_all add: get_db_connection_def sqlite3_connect_def)
  ultimately show ?thesis using loop by auto
qed

subsection \<open>Stock and insufficient stock\<close>







lemma process_item_rows:
  assumes "process_item tf c item = (res, c')" and "r \<in> set (inventory (working c'))"
  shows "r \<in> set (inventory (working c)) \<or> 0 < i_quantity r"
proof -
  from process_item_conn [OF assms(1)] consider "c' = c"
    | pid q where "c' = apply_deductions (snd (plan_deduction (select_inventory_fifo pid (working c)) q [])) c"
    by blast
  then show ?thesis
  proof cases
    case 1
    then show ?thesis using assms(2) by simp
  next
    case (2 pid q)
    let ?ds = "snd (plan_deduction (select_inventory_fifo pid (working c)) q [])"
    have "r \<in> set (deduct_rows ?ds (inventory (working c)))"
      using assms(2) unfolding 2 by (simp add: apply_deductions_inventory)
    from deduct_rows_quantities [OF this] show ?thesis
      using plan_deduction_entries by fastforce
  qed
qed



text \<open>The lines a successful loop has read give the total of the specification.\<close>

lemma select_product_Some:
  assumes "select_product pid d = Some p"
  shows "p \<in> set (products d)" and "p_id p = pid" and "catalog_price d pid = Some (p_price p)"
proof -
  from assms have f: "find (\<lambda>p. p_id p = pid) (products d) = Some p"
    by (simp add: select_product_def)
  then obtain i where "i < length (products d)" "p_id (products d ! i) = pid" "p = products d ! i"
    unfolding find_Some_iff by blast
  then show "p \<in> set (products d)" and "p_id p = pid"
    by simp_all
  show "catalog_price d pid = Some (p_price p)"
    by (simp add: catalog_price_def f)
qed




subsection \<open>Positive quantities\<close>

lemma bill_items_loop_rows:
  assumes "bill_items_loop tf c items tot acc = (res, c')" and "r \<in> set (inventory (working c'))"
  shows "r \<in> set (inventory (working c)) \<or> 0 < i_quantity r"
  using assms
proof (induction items arbitrary: c tot acc)
  case Nil
  then show ?case by simp
next
  case (Cons item rest)
  obtain r1 c1 where p: "process_item tf c item = (r1, c1)" by (cases "process_item tf c item")
  note one = process_item_rows [OF p]
  show ?case
  proof (cases r1)
    case (Inl e)
    then have "c' = c1" using Cons.prems(1) p by simp
    then show ?thesis using Cons.prems(2) one by simp
  next
    case (Inr v)
    obtain t l where v: "v = (t, l)" by (cases v)
    have loop: "bill_items_loop tf c1 rest (tot + t) (acc @ [l]) = (res, c')"
      using Cons.prems(1) p Inr v by simp
    from Cons.IH [OF loop Cons.prems(2)] one show ?thesis by auto
  qed
qed

lemma generate_bill_positive:
  assumes "inventory_positive d"
  shows "inventory_positive (snd (generate_bill tf nan now d data))"
proof (cases "fst (generate_bill tf nan now d data)")
  case (Inl e)
  then show ?thesis using assms generate_bill_rollback [of tf nan now d data e] by simp
next
  case (Inr v)
  obtain bill_id final where "v = (bill_id, final)" by (cases v)
  with Inr have g: "generate_bill tf nan now d data = (Inr (bill_id, final), snd (generate_bill tf nan now d data))"
    by (simp add: prod_eq_iff)
  from generate_bill_inventory [OF g] obtain tot ls c where
    loop: "bill_items_loop tf (get_db_connection d) (rq_items data) 0 [] = (Inr (tot, ls), c)"
    and inv: "inventory (snd (generate_bill tf nan now d data)) = inventory (working c)"
    by blast
  have w0: "working (get_db_connection d) = d"
    by (simp add: get_db_connection_def sqlite3_connect_def)
  show ?thesis
    unfolding inventory_positive_def inv
    using bill_items_loop_rows [OF loop] assms unfolding w0 inventory_positive_def by blast
qed

lemma bit_length_le: "n \<noteq> 0 \<Longrightarrow> 2 ^ (bit_length n - 1) \<le> n"
proof (induction n rule: bit_length.induct)
  case (1 n)
  show ?case
  proof (cases "n div 2 = 0")
    case True
    with "1.prems" have "n = 1" by presburger
    then show ?thesis by (simp add: bit_length.simps)
  next
    case False
    from "1.IH" [OF "1.prems" False] have "2 ^ (bit_length (n div 2) - 1) \<le> n div 2" .
    moreover have "bit_length (n div 2) \<noteq> 0"
      using False by (simp add: bit_length.simps [of "n div 2"])
    then have "(2::nat) ^ bit_length (n div 2) = 2 * 2 ^ (bit_length (n div 2) - 1)"
      by (cases "bit_length (n div 2)") simp_all
    ultimately have "(2::nat) ^ bit_length (n div 2) \<le> n" by simp
    then show ?thesis using "1.prems" by (simp add: bit_length.simps [of n])
  qed
qed

lemma nearest_double_nat_pos: "0 < n \<Longrightarrow> 0 < nearest_double_nat n"
proof -
  assume pos: "0 < n"
  show ?thesis
  proof (cases "bit_length n \<le> 53")
    case True
    then show ?thesis using pos by (simp add: nearest_double_nat_def)
  next
    case False
    let ?e = "bit_length n - 53"
    have "(2::nat) ^ ?e \<le> 2 ^ (bit_length n - 1)"
      by (rule power_increasing) simp_all
    also have "\<dots> \<le> n" using pos by (intro bit_length_le) simp
    finally have "0 < n div 2 ^ ?e" by (simp add: div_greater_zero_iff)
    then show ?thesis using False by (simp add: nearest_double_nat_def Let_def)
  qed
qed

lemma nearest_double_pos: "0 < i \<Longrightarrow> 0 < nearest_double i"
  by (simp add: nearest_double_def nearest_double_nat_pos)

lemma sqlite_add_pos: "0 < a \<Longrightarrow> 0 < b \<Longrightarrow> 0 < sqlite_add a b"
  using nearest_double_pos [of a] nearest_double_pos [of b]
    nearest_double_pos [of "nearest_double a + nearest_double b"]
  by (simp add: sqlite_add_def)

lemma add_product_positive:
  assumes "inventory_positive d"
  shows "inventory_positive (snd (add_product nan d data))"
proof -
  have ins: "inventory_positive (add_inventory_quantity q pid bn (insert_or_ignore_inventory pid bn q d'))"
    if "inventory_positive d'" "0 < q" for d' :: "'a db" and q pid bn
    using that
    by (auto simp: inventory_positive_def add_inventory_quantity_def insert_or_ignore_inventory_def
          insert_inventory_def Let_def sqlite_add_pos split: option.splits)
  have prod: "inventory_positive (insert_product n ds p q d')" if "inventory_positive d'"
    for d' :: "'a db" and n ds p q
    using that by (simp add: inventory_positive_def insert_product_def Let_def)
  show ?thesis
  proof (cases "pr_name data")
    case None
    then show ?thesis using assms by (simp add: add_product_def)
  next
    case (Some name)
    show ?thesis
    proof (cases "pr_price data")
      case None
      then show ?thesis using assms Some by (simp add: add_product_def)
    next
      case (Some price)
      show ?thesis
        using assms \<open>pr_name data = Some name\<close> Some
        by (simp add: add_product_def Let_def get_db_connection_def sqlite3_connect_def
              execute_def commit_def close_def discard_def ins prod)
    qed
  qed
qed

lemma add_or_update_inventory_positive:
  assumes "inventory_positive d"
  shows "inventory_positive (snd (add_or_update_inventory d data))"
proof -
  have upd: "inventory_positive (update_inventory_quantity (x + q) b d)" if "0 < x + q" for x q b
    using assms that by (auto simp: inventory_positive_def update_inventory_quantity_def)
  have ins: "inventory_positive (insert_inventory pid bn q d)" if "0 < q" for pid bn q
    using assms that by (auto simp: inventory_positive_def insert_inventory_def Let_def)
  have found: "0 < i_quantity b" if "select_batch pid bn d = Some b" for pid bn b
    using that assms by (auto simp: select_batch_def inventory_positive_def find_Some_iff)
  show ?thesis
    using assms
    by (auto simp: add_or_update_inventory_def Let_def get_db_connection_def sqlite3_connect_def
          execute_def commit_def close_def discard_def
          intro!: upd ins dest!: found split: option.splits)
qed

lemma delete_product_positive:
  assumes "inventory_positive d"
  shows "inventory_positive (snd (delete_product d pid))"
  using assms
  by (simp add: delete_product_def delete_product_row_def Let_def get_db_connection_def
        sqlite3_connect_def execute_def commit_def close_def inventory_positive_def)

lemma delete_inventory_batch_positive:
  assumes "inventory_positive d"
  shows "inventory_positive (snd (delete_inventory_batch d bid))"
  using assms
  by (simp add: delete_inventory_batch_def delete_inventory_def Let_def get_db_connection_def
        sqlite3_connect_def execute_def commit_def close_def inventory_positive_def)

lemma update_product_positive:
  assumes "inventory_positive d"
  shows "inventory_positive (snd (update_product nan d pid data))"
  using assms by (simp add: inventory_positive_def update_product_frame)

lemma register_user_positive:
  assumes "inventory_positive d"
  shows "inventory_positive (snd (register_user d data))"
  using assms
  by (simp add: register_user_def insert_user_def Let_def get_db_connection_def
        sqlite3_connect_def execute_def commit_def close_def inventory_positive_def
        split: option.splits)

lemma read_only:
  "snd (login_user d udata) = d" "snd (get_products d) = d" "snd (get_inventory d) = d"
  "snd (get_bills d) = d"
  by (simp_all add: login_user_def get_products_def get_inventory_def get_bills_def Let_def
        get_db_connection_def sqlite3_connect_def close_def split: option.splits)


subsection \<open>Listing the bills\<close>

lemma get_bills_eq:
  "fst (get_bills d) = map (\<lambda>bill. (bill, select_bill_items_joined (b_id bill) d)) (select_bills_desc d)"
  "snd (get_bills d) = d"
  by (simp_all add: get_bills_def get_db_connection_def sqlite3_connect_def close_def Let_def)

lemma select_bills_desc_sorted:
  "sorted_wrt (\<lambda>x y. b_bill_date y \<le> b_bill_date x) (select_bills_desc d)"
proof -
  have "sorted (map b_bill_date (sort_key b_bill_date (rev (bills d))))"
    by (rule sorted_sort_key)
  then have "sorted_wrt (\<lambda>x y. b_bill_date x \<le> b_bill_date y) (sort_key b_bill_date (rev (bills d)))"
    by (simp add: sorted_wrt_map)
  then show ?thesis
    by (simp add: select_bills_desc_def sorted_wrt_rev)
qed

lemma set_select_bill_items_joined:
  "v \<in> set (select_bill_items_joined bid d) \<longleftrightarrow>
     (\<exists>bi \<in> set (bill_items d). \<exists>p \<in> set (products d).
         bi_bill_id bi = bid \<and> bi_product_id bi = p_id p
       \<and> v = \<lparr>v_quantity = bi_quantity bi, v_price_at_purchase = bi_price_at_purchase bi,
               v_product_name = p_name p, v_description = p_description p\<rparr>)"
  by (auto simp: select_bill_items_joined_def)

text \<open>The inner join, row by row of \<open>bill_items\<close>, as a selection from the cartesian product.\<close>

lemma concat_filter_product:
  "concat (map (\<lambda>x. map (f x) (filter (P x) ys)) (filter Q xs))
     = map (\<lambda>(x, y). f x y) (filter (\<lambda>(x, y). Q x \<and> P x y) (List.product xs ys))"
proof (induction xs)
  case Nil
  show ?case by simp
next
  case (Cons x xs)
  have "map (\<lambda>(x, y). f x y) (filter (\<lambda>(x, y). Q x \<and> P x y) (map (Pair x) ys))
          = (if Q x then map (f x) (filter (P x) ys) else [])"
    by (induction ys) simp_all
  then show ?case using Cons by simp
qed

lemma select_bill_items_joined_product:
  "select_bill_items_joined bid d
     = map (\<lambda>(bi, p). \<lparr>v_quantity = bi_quantity bi, v_price_at_purchase = bi_price_at_purchase bi,
                          v_product_name = p_name p, v_description = p_description p\<rparr>)
         (filter (\<lambda>(bi, p). bi_bill_id bi = bid \<and> bi_product_id bi = p_id p)
            (List.product (bill_items d) (products d)))"
  unfolding select_bill_items_joined_def by (rule concat_filter_product)

subsection \<open>Decimal numerals\<close>

lemma digit_char_all:
  assumes "d < 10"
  shows "digit_value (''0123456789'' ! d) = Some d \<and> ''0123456789'' ! d \<noteq> CHR ''-''
           \<and> (''0123456789'' ! d = CHR ''0'') = (d = 0)"
proof -
  from assms consider "d = 0" | "d = 1" | "d = 2" | "d = 3" | "d = 4" | "d = 5" | "d = 6"
    | "d = 7" | "d = 8" | "d = 9" by atomize_elim presburger
  then show ?thesis
    by cases (simp_all add: digit_value_def)
qed

lemma digit_char:
  assumes "d < 10"
  shows "digit_value (''0123456789'' ! d) = Some d" and "''0123456789'' ! d \<noteq> CHR ''-''"
    and "(''0123456789'' ! d = CHR ''0'') = (d = 0)"
  using digit_char_all [OF assms] by simp_all

lemma read_digits_append:
  "read_digits (xs @ ys) acc = (case read_digits xs acc of None \<Rightarrow> None | Some a \<Rightarrow> read_digits ys a)"
  by (induction xs arbitrary: acc) (simp_all split: option.splits)

lemma read_digits_digits: "read_digits (digits n) 0 = Some n"
proof (induction n rule: digits.induct)
  case (1 n)
  show ?case
  proof (cases "n < 10")
    case True
    then show ?thesis by (simp add: digits.simps [of n] digit_char)
  next
    case False
    have "n mod 10 < 10" by simp
    with False "1.IH" show ?thesis
      by (simp add: digits.simps [of n] read_digits_append digit_char)
  qed
qed

lemma digits_hd: "digits n \<noteq> [] \<and> hd (digits n) \<noteq> CHR ''-'' \<and> (hd (digits n) = CHR ''0'') = (n = 0)"
proof (induction n rule: digits.induct)
  case (1 n)
  show ?case
  proof (cases "n < 10")
    case True
    then show ?thesis by (simp add: digits.simps [of n] digit_char)
  next
    case False
    then have "n div 10 \<noteq> 0" by simp
    with False "1.IH" show ?thesis
      by (simp add: digits.simps [of n])
  qed
qed

lemma read_nat_digits: "read_nat (digits n) = Some n"
proof (cases "n = 0")
  case True
  then show ?thesis by (simp add: read_nat_def digits.simps [of 0] digit_value_def)
next
  case False
  then show ?thesis using digits_hd [of n] by (simp add: read_nat_def read_digits_digits)
qed

text \<open>The decimal numeral that \<open>str\<close> prints reads back as the integer printed.\<close>

lemma read_int_str_int: "read_int (str_int n) = Some n"
proof (cases "n < 0")
  case True
  then show ?thesis by (simp add: read_int_def str_int_def read_nat_digits)
next
  case False
  obtain c t where ct: "digits (nat n) = c # t"
    using digits_hd [of "nat n"] by (cases "digits (nat n)") auto
  then have "c \<noteq> CHR ''-''" using digits_hd [of "nat n"] by simp
  with False ct show ?thesis
    using read_nat_digits [of "nat n"] by (simp add: read_int_def str_int_def)
qed

subsection \<open>Creating and deleting products\<close>

lemma fold_max_bounds: "s \<le> fold max ids s \<and> (\<forall>i \<in> set ids. i \<le> fold max ids s)"
  for s :: int
proof (induction ids arbitrary: s)
  case Nil
  show ?case by simp
next
  case (Cons a ids)
  from Cons [of "max a s"] have "max a s \<le> fold max ids (max a s)"
    and "\<forall>i \<in> set ids. i \<le> fold max ids (max a s)" by simp_all
  then show ?case by auto
qed

lemma next_rowid_greater: "s < next_rowid s ids" "\<forall>i \<in> set ids. i < next_rowid s ids"
  using fold_max_bounds [of s ids] by (auto simp: next_rowid_def)

lemma add_product_created:
  assumes "add_product nan d data = ((201, Some pid), d')"
  shows "\<exists>name price.
           pr_name data = Some name \<and> name \<noteq> [] \<and> pr_price data = Some price
         \<and> (\<forall>p \<in> set (products d). p_name p \<noteq> name)
         \<and> pid = next_rowid (seq_products d) (map p_id (products d))
         \<and> products d' = products d @ [\<lparr>p_id = pid, p_name = name, p_description = pr_description data,
               p_price = price,
               p_initial_quantity = (case pr_initial_quantity data of None \<Rightarrow> 0 | Some q \<Rightarrow> q)\<rparr>]
         \<and> inventory d' =
             (if 0 < (case pr_initial_quantity data of None \<Rightarrow> 0 | Some q \<Rightarrow> q)
              then inventory (add_inventory_quantity (case pr_initial_quantity data of None \<Rightarrow> 0 | Some q \<Rightarrow> q)
                                pid (''INITIAL-'' @ str_int pid)
                     (insert_or_ignore_inventory pid (''INITIAL-'' @ str_int pid)
                        (case pr_initial_quantity data of None \<Rightarrow> 0 | Some q \<Rightarrow> q) d))
              else inventory d)"
proof (cases "pr_name data")
  case None
  then show ?thesis using assms by (simp add: add_product_def)
next
  case name: (Some name)
  show ?thesis
  proof (cases "pr_price data")
    case None
    then show ?thesis using assms name by (simp add: add_product_def)
  next
    case (Some price)
    let ?iq = "case pr_initial_quantity data of None \<Rightarrow> 0 | Some q \<Rightarrow> q"
    define d1 where "d1 = insert_product name (pr_description data) price ?iq d"
    define new_id where "new_id = seq_products d1"
    define bn where "bn = ''INITIAL-'' @ str_int new_id"
    have nonempty: "name \<noteq> []"
      using assms name Some by (auto simp: add_product_def split: if_splits)
    have bound: "int64 ?iq"
      using assms name Some nonempty
      by (auto simp: add_product_def Let_def split: if_splits)
    have fresh: "\<not> nan price \<and> (\<forall>p \<in> set (products d). p_name p \<noteq> name)"
      using assms name Some nonempty bound
      by (auto simp: add_product_def Let_def get_db_connection_def sqlite3_connect_def
            split: if_splits)
    have res: "add_product nan d data =
                 ((201, Some new_id),
                  if 0 < ?iq then add_inventory_quantity ?iq new_id bn (insert_or_ignore_inventory new_id bn ?iq d1)
                  else d1)"
      using name Some nonempty fresh bound
      by (simp add: add_product_def Let_def get_db_connection_def sqlite3_connect_def
            execute_def commit_def close_def d1_def new_id_def bn_def)
    have d1: "products d1 = products d @ [\<lparr>p_id = new_id, p_name = name,
                 p_description = pr_description data, p_price = price, p_initial_quantity = ?iq\<rparr>]"
      "new_id = next_rowid (seq_products d) (map p_id (products d))"
      "inventory d1 = inventory d" "seq_inventory d1 = seq_inventory d"
      by (simp_all add: d1_def new_id_def insert_product_def Let_def)
    have prods: "products (add_inventory_quantity q p b (insert_or_ignore_inventory p b q d1)) = products d1"
      for q p b
      by (simp add: add_inventory_quantity_def insert_or_ignore_inventory_def insert_inventory_def
            Let_def split: option.splits)
    have ioi: "inventory (add_inventory_quantity q p b (insert_or_ignore_inventory p b q d1))
               = inventory (add_inventory_quantity q p b (insert_or_ignore_inventory p b q d))" for q p b
      by (simp add: add_inventory_quantity_def insert_or_ignore_inventory_def select_batch_def
            insert_inventory_def d1(3,4) Let_def split: option.splits)
    from assms res have pid: "pid = new_id"
      and d': "d' = (if 0 < ?iq then add_inventory_quantity ?iq new_id bn (insert_or_ignore_inventory new_id bn ?iq d1)
                     else d1)"
      by simp_all
    have "products d' = products d1"
      unfolding d' by (simp add: prods)
    moreover have "inventory d' =
             (if 0 < ?iq
              then inventory (add_inventory_quantity ?iq new_id bn (insert_or_ignore_inventory new_id bn ?iq d))
              else inventory d)"
      unfolding d' by (simp add: ioi d1(3))
    ultimately show ?thesis
      using name Some nonempty fresh d1(1,2) unfolding pid bn_def by simp
  qed
qed

lemma delete_product_result:
  "snd (delete_product d pid) = d\<lparr>products := filter (\<lambda>p. p_id p \<noteq> pid) (products d)\<rparr>"
  by (simp add: delete_product_def delete_product_row_def Let_def get_db_connection_def
        sqlite3_connect_def execute_def commit_def close_def)

lemma delete_product_row_cascade:
  assumes "\<exists>p \<in> set (products d). p_id p = pid"
  shows "filter (\<lambda>r. i_product_id r = pid) (inventory (delete_product_row True pid d)) = []"
  using assms by (auto simp: delete_product_row_def Let_def filter_empty_conv)

lemma joined_without_product:
  "concat (map (\<lambda>bi. map (f bi) (filter (\<lambda>p. bi_product_id bi = p_id p) (filter (\<lambda>p. p_id p \<noteq> pid) ps)))
             (filter (\<lambda>bi. bi_bill_id bi = bid) bis))
   = concat (map (\<lambda>bi. map (f bi) (filter (\<lambda>p. bi_product_id bi = p_id p) ps))
             (filter (\<lambda>bi. bi_bill_id bi = bid) (filter (\<lambda>bi. bi_product_id bi \<noteq> pid) bis)))"
proof (induction bis)
  case Nil
  show ?case by simp
next
  case (Cons bi bis)
  have same: "filter (\<lambda>p. bi_product_id bi = p_id p) (filter (\<lambda>p. p_id p \<noteq> pid) ps)
                = filter (\<lambda>p. bi_product_id bi = p_id p) ps" if "bi_product_id bi \<noteq> pid"
    unfolding filter_filter by (rule filter_cong) (use that in auto)
  have gone: "filter (\<lambda>p. bi_product_id bi = p_id p) (filter (\<lambda>p. p_id p \<noteq> pid) ps) = []"
    if "bi_product_id bi = pid"
    using that by (auto simp: filter_empty_conv)
  show ?case
    using Cons same gone by (cases "bi_product_id bi = pid") simp_all
qed

subsection \<open>Well-formed databases\<close>

lemma deduct_rows_origin:
  "r \<in> set (deduct_rows ds tbl) \<Longrightarrow>
     \<exists>r' \<in> set tbl. i_id r = i_id r' \<and> i_product_id r = i_product_id r'"
proof (induction ds tbl rule: deduct_rows.induct)
  case (1 tbl)
  then show ?case by auto
next
  case (2 new_q b rest tbl)
  from "2.IH" [OF "2.prems" [simplified]] show ?case
    by (auto split: if_splits)
qed

lemma process_item_origin:
  assumes "process_item tf c item = (res, c')" and "r \<in> set (inventory (working c'))"
  shows "\<exists>r' \<in> set (inventory (working c)). i_id r = i_id r' \<and> i_product_id r = i_product_id r'"
proof -
  from process_item_conn [OF assms(1)]
  consider "c' = c" | ds where "c' = apply_deductions ds c" by blast
  then show ?thesis
  proof cases
    case 1
    then show ?thesis using assms(2) by auto
  next
    case 2
    then have "r \<in> set (deduct_rows ds (inventory (working c)))"
      using assms(2) by (simp add: apply_deductions_inventory)
    from deduct_rows_origin [OF this] show ?thesis by auto
  qed
qed

lemma bill_items_loop_origin:
  assumes "bill_items_loop tf c items tot acc = (res, c')" and "r \<in> set (inventory (working c'))"
  shows "\<exists>r' \<in> set (inventory (working c)). i_id r = i_id r' \<and> i_product_id r = i_product_id r'"
  using assms
proof (induction items arbitrary: c tot acc)
  case Nil
  then show ?case by auto
next
  case (Cons item rest)
  obtain r1 c1 where p: "process_item tf c item = (r1, c1)" by (cases "process_item tf c item")
  show ?case
  proof (cases r1)
    case (Inl e)
    then have "c' = c1" using Cons.prems(1) p by simp
    then show ?thesis using process_item_origin [OF p] Cons.prems(2) by simp
  next
    case (Inr v)
    obtain t l where v: "v = (t, l)" by (cases v)
    have loop: "bill_items_loop tf c1 rest (tot + t) (acc @ [l]) = (res, c')"
      using Cons.prems(1) p Inr v by simp
    from Cons.IH [OF loop Cons.prems(2)] obtain r1 where
      r1: "r1 \<in> set (inventory (working c1))" "i_id r = i_id r1" "i_product_id r = i_product_id r1"
      by blast
    from process_item_origin [OF p r1(1)] r1(2,3) show ?thesis by auto
  qed
qed

lemma generate_bill_wf:
  assumes "wf_db d"
  shows "wf_db (snd (generate_bill tf nan now d data))"
proof (cases "fst (generate_bill tf nan now d data)")
  case (Inl e)
  then show ?thesis using assms generate_bill_rollback [of tf nan now d data e] by simp
next
  case (Inr v)
  obtain bill_id final where "v = (bill_id, final)" by (cases v)
  with Inr have g: "generate_bill tf nan now d data = (Inr (bill_id, final), snd (generate_bill tf nan now d data))"
    by (simp add: prod_eq_iff)
  let ?d' = "snd (generate_bill tf nan now d data)"
  have w0: "working (get_db_connection d) = d"
    by (simp add: get_db_connection_def sqlite3_connect_def)
  from generate_bill_inventory [OF g] obtain tot ls c where
    loop: "bill_items_loop tf (get_db_connection d) (rq_items data) 0 [] = (Inr (tot, ls), c)"
    and same: "inventory ?d' = inventory (working c)" "products ?d' = products d"
    "seq_inventory ?d' = seq_inventory d" "seq_products ?d' = seq_products d"
    by blast
  have dist: "distinct (map i_id (inventory (working c)))"
    using bill_items_loop_inventory [OF loop, unfolded w0] assms by (simp add: wf_db_def)
  have org: "\<exists>r' \<in> set (inventory d). i_id r = i_id r' \<and> i_product_id r = i_product_id r'"
    if "r \<in> set (inventory (working c))" for r
    using bill_items_loop_origin [OF loop that] unfolding w0 .
  show ?thesis
    unfolding wf_db_def same list_all_iff
    using assms dist org unfolding wf_db_def list_all_iff by (metis (no_types, lifting))
qed

lemma wf_insert_product: "wf_db d \<Longrightarrow> wf_db (insert_product n ds p q d)"
  using next_rowid_greater [where s = "seq_products d" and ids = "map p_id (products d)"]
  by (fastforce simp: wf_db_def insert_product_def Let_def list_all_iff)

lemma wf_insert_inventory:
  assumes "wf_db d" and "pid \<le> seq_products d"
  shows "wf_db (insert_inventory pid bn q d)"
proof -
  let ?rid = "next_rowid (seq_inventory d) (map i_id (inventory d))"
  have "?rid \<notin> i_id ` set (inventory d)"
    using next_rowid_greater(2) [where ids = "map i_id (inventory d)" and s = "seq_inventory d"] by auto
  moreover have "\<forall>r \<in> set (inventory d). i_id r \<le> ?rid"
    using next_rowid_greater(2) [where ids = "map i_id (inventory d)" and s = "seq_inventory d"] by auto
  ultimately show ?thesis
    using assms by (simp add: wf_db_def insert_inventory_def Let_def list_all_iff)
qed

lemma wf_insert_or_ignore_inventory:
  assumes "wf_db d" and "pid \<le> seq_products d"
  shows "wf_db (insert_or_ignore_inventory pid bn q d)"
proof (cases "select_batch pid bn d")
  case None
  then show ?thesis using assms by (simp add: insert_or_ignore_inventory_def wf_insert_inventory)
next
  case (Some r)
  have "\<forall>r \<in> set (inventory d). i_id r \<le> next_rowid (seq_inventory d) (map i_id (inventory d))"
    using next_rowid_greater(2) [where ids = "map i_id (inventory d)" and s = "seq_inventory d"] by auto
  then show ?thesis
    using assms Some by (simp add: insert_or_ignore_inventory_def wf_db_def list_all_iff)
qed

lemma wf_add_inventory_quantity: "wf_db d \<Longrightarrow> wf_db (add_inventory_quantity q pid bn d)"
proof -
  have "map i_id (map (\<lambda>r. if i_product_id r = pid \<and> i_batch_number r = bn
                             then r\<lparr>i_quantity := sqlite_add (i_quantity r) q\<rparr> else r) (inventory d))
          = map i_id (inventory d)"
    by (induction "inventory d") auto
  then show "wf_db d \<Longrightarrow> wf_db (add_inventory_quantity q pid bn d)"
    by (auto simp: wf_db_def add_inventory_quantity_def list_all_iff simp del: map_map)
qed

lemma wf_update_inventory_quantity: "wf_db d \<Longrightarrow> wf_db (update_inventory_quantity q b d)"
proof -
  have "map i_id (map (\<lambda>r. if i_id r = b then r\<lparr>i_quantity := q\<rparr> else r) (inventory d))
          = map i_id (inventory d)"
    by (induction "inventory d") auto
  then show "wf_db d \<Longrightarrow> wf_db (update_inventory_quantity q b d)"
    by (auto simp: wf_db_def update_inventory_quantity_def list_all_iff simp del: map_map)
qed

lemma wf_delete_inventory: "wf_db d \<Longrightarrow> wf_db (delete_inventory b d)"
  by (auto simp: wf_db_def delete_inventory_def list_all_iff distinct_map_filter)

lemma wf_update_product_row: "wf_db d \<Longrightarrow> wf_db (update_product_row n ds p pid d)"
  by (auto simp: wf_db_def update_product_row_def list_all_iff)

lemma wf_delete_product_row: "wf_db d \<Longrightarrow> wf_db (delete_product_row fk pid d)"
  by (auto simp: wf_db_def delete_product_row_def Let_def list_all_iff distinct_map_filter)

lemma wf_insert_user: "wf_db d \<Longrightarrow> wf_db (insert_user u p d)"
  by (simp add: wf_db_def insert_user_def Let_def)

lemma add_product_wf:
  assumes "wf_db d"
  shows "wf_db (snd (add_product nan d data))"
proof -
  have two: "wf_db (add_inventory_quantity q (seq_products d1) bn
                      (insert_or_ignore_inventory (seq_products d1) bn q d1))"
    if "wf_db d1" for d1 :: "'a db" and q bn
    by (intro wf_add_inventory_quantity wf_insert_or_ignore_inventory that order_refl)
  show ?thesis
  proof (cases "pr_name data")
    case None
    then show ?thesis using assms by (simp add: add_product_def)
  next
    case (Some name)
    show ?thesis
    proof (cases "pr_price data")
      case None
      then show ?thesis using assms Some by (simp add: add_product_def)
    next
      case (Some price)
      show ?thesis
        using assms \<open>pr_name data = Some name\<close> Some
        by (simp add: add_product_def Let_def get_db_connection_def sqlite3_connect_def
              execute_def commit_def close_def discard_def two wf_insert_product)
    qed
  qed
qed

lemma add_or_update_inventory_wf:
  assumes "wf_db d"
  shows "wf_db (snd (add_or_update_inventory d data))"
proof -
  have known: "pid \<le> seq_products d" if "select_product pid d = Some p" for pid p
    using that assms by (auto simp: select_product_def wf_db_def list_all_iff find_Some_iff)
  show ?thesis
    using assms
    by (auto simp: add_or_update_inventory_def Let_def get_db_connection_def sqlite3_connect_def
          execute_def commit_def close_def discard_def
          intro!: wf_update_inventory_quantity wf_insert_inventory dest!: known split: option.splits)
qed

lemma wf_db_handle:
  assumes "wf_db d"
  shows "wf_db (handle tf nan d req)"
proof (cases req)
  case ServeIndex
  then show ?thesis using assms by simp
next
  case (RegisterUser x)
  then show ?thesis using assms
    by (simp add: register_user_def Let_def get_db_connection_def sqlite3_connect_def
          execute_def commit_def close_def wf_insert_user split: option.splits)
next
  case (LoginUser x)
  then show ?thesis using assms by (simp add: read_only)
next
  case GetProducts
  then show ?thesis using assms by (simp add: read_only)
next
  case (AddProduct x)
  then show ?thesis using assms by (simp add: add_product_wf)
next
  case (UpdateProduct x y)
  then show ?thesis using assms
    by (simp add: update_product_def Let_def get_db_connection_def sqlite3_connect_def
          execute_def commit_def close_def discard_def wf_update_product_row split: option.splits)
next
  case (DeleteProduct x)
  then show ?thesis using assms
    by (simp add: delete_product_def Let_def get_db_connection_def sqlite3_connect_def
          execute_def commit_def close_def wf_delete_product_row)
next
  case GetInventory
  then show ?thesis using assms by (simp add: read_only)
next
  case (AddOrUpdateInventory x)
  then show ?thesis using assms by (simp add: add_or_update_inventory_wf)
next
  case (DeleteInventoryBatch x)
  then show ?thesis using assms
    by (simp add: delete_inventory_batch_def Let_def get_db_connection_def sqlite3_connect_def
          execute_def commit_def close_def wf_delete_inventory)
next
  case (GenerateBill x y)
  then show ?thesis using assms by (simp add: generate_bill_wf)
next
  case GetBills
  then show ?thesis using assms by (simp add: read_only)
qed

lemma inventory_positive_handle:
  assumes pos: "inventory_positive d"
  shows "inventory_positive (handle tf nan d req)"
proof (cases req)
  case ServeIndex
  then show ?thesis using pos by simp
next
  case (RegisterUser x)
  then show ?thesis using pos by (simp add: register_user_positive)
next
  case (LoginUser x)
  then show ?thesis using pos by (simp add: read_only)
next
  case GetProducts
  then show ?thesis using pos by (simp add: read_only)
next
  case (AddProduct x)
  then show ?thesis using pos by (simp add: add_product_positive)
next
  case (UpdateProduct x y)
  then show ?thesis using pos by (simp add: update_product_positive)
next
  case (DeleteProduct x)
  then show ?thesis using pos by (simp add: delete_product_positive)
next
  case GetInventory
  then show ?thesis using pos by (simp add: read_only)
next
  case (AddOrUpdateInventory x)
  then show ?thesis using pos by (simp add: add_or_update_inventory_positive)
next
  case (DeleteInventoryBatch x)
  then show ?thesis using pos by (simp add: delete_inventory_batch_positive)
next
  case (GenerateBill x y)
  then show ?thesis using pos by (simp add: generate_bill_positive)
next
  case GetBills
  then show ?thesis using pos by (simp add: read_only)
qed

text \<open>
  Every database the application reaches from the one \<open>init_db\<close> creates is well formed
  and has positive inventory quantities only.
\<close>

lemma init_db_wf: "wf_db init_db" "inventory_positive init_db"
  by (simp_all add: wf_db_def init_db_def inventory_positive_def)

lemma reachable_invariants:
  assumes "reachable tf nan d"
  shows "wf_db d" and "inventory_positive d"
  using assms
  by (induction rule: reachable.induct)
     (simp_all add: init_db_wf wf_db_handle inventory_positive_handle)

lemma wf_db_facts:
  assumes "wf_db d"
  shows "distinct (map i_id (inventory d))"
    and "\<forall>r \<in> set (inventory d). i_product_id r \<le> seq_products d"
  using assms by (simp_all add: wf_db_def list_all_iff)

section \<open>The claims\<close>

text \<open>
  Claim C1.  A successful \<open>POST /bill\<close> read, for every line item in request order, a
  product id, a quantity and the product's catalog price in the database the request
  started from; the \<open>total_amount\<close> of the response is the running sum of
  \<open>price * quantity\<close> over these lines (accumulated from 0 in request order), times
  \<open>(1 - discount)\<close>, times \<open>(1 + tax_rate)\<close>, with an absent discount or tax rate read
  as 0; and the request appends to \<open>bills\<close> exactly one row, which stores this same
  total together with the discount and the tax rate.  Nothing restricts the range of
  the discount or the tax rate: the statement is for all values, in any arithmetic of
  the amounts.
\<close>

theorem generate_bill_total:
  assumes "generate_bill to_float is_nan now d data = (Inr (bill_id, total_amount), d')"
  shows "\<exists>lines customer_name.
           list_all2 (\<lambda>item (pid, q, price). it_product_id item = Some pid
                 \<and> as_int (it_quantity item) = Some q
                 \<and> (\<exists>p. select_product pid d = Some p \<and> p_price p = price)) (rq_items data) lines
         \<and> total_amount = foldl (\<lambda>a (pid, q, price). a + price * to_float q) 0 lines
                             * (1 - (case rq_discount data of None \<Rightarrow> 0 | Some x \<Rightarrow> x))
                             * (1 + (case rq_tax_rate data of None \<Rightarrow> 0 | Some x \<Rightarrow> x))
         \<and> bills d' = bills d @ [\<lparr>b_id = bill_id, b_customer_name = customer_name, b_bill_date = now,
                                   b_total_amount = total_amount,
                                   b_discount = (case rq_discount data of None \<Rightarrow> 0 | Some x \<Rightarrow> x),
                                   b_tax = (case rq_tax_rate data of None \<Rightarrow> 0 | Some x \<Rightarrow> x)\<rparr>]"
proof -
  let ?disc = "case rq_discount data of None \<Rightarrow> 0 | Some x \<Rightarrow> x"
  let ?tax = "case rq_tax_rate data of None \<Rightarrow> 0 | Some x \<Rightarrow> x"
  from generate_bill_Inr [OF assms] obtain cn tot ls c c1 c2 where
    loop: "bill_items_loop to_float (get_db_connection d) (rq_items data) 0 [] = (Inr (tot, ls), c)"
    and final: "total_amount = tot * (1 - ?disc) * (1 + ?tax)"
    and c1: "c1 = execute (insert_bill cn now total_amount ?disc ?tax) c"
    and bid: "bill_id = seq_bills (working c1)"
    and ins: "insert_bill_items bill_id ls c1 = Inr c2"
    and d': "d' = working c2"
    by blast
  note fr = insert_bill_items_frame [OF ins]
  have w0: "working (get_db_connection d) = d"
    by (simp add: get_db_connection_def sqlite3_connect_def)
  from bill_items_loop_Inr [OF loop] have
    lines: "list_all2 (\<lambda>item (pid, q, price). it_product_id item = Some pid
                 \<and> as_int (it_quantity item) = Some q
                 \<and> (\<exists>p. select_product pid d = Some p \<and> p_price p = price)) (rq_items data) ls"
    and tot: "tot = foldl (\<lambda>a (pid, q, price). a + price * to_float q) 0 ls"
    unfolding w0 by auto
  have "bills (working c) = bills d"
    using bill_items_loop_frame [OF loop] w0 by simp
  then have "bills d' = bills d @ [\<lparr>b_id = bill_id, b_customer_name = cn, b_bill_date = now,
                                   b_total_amount = total_amount, b_discount = ?disc, b_tax = ?tax\<rparr>]"
    unfolding d' using fr unfolding bid c1
    by (simp add: execute_def insert_bill_def Let_def)
  with lines tot final show ?thesis by blast
qed

text \<open>
  An order with discount 2 (more than the whole price): 7 tea at 10 and 1 jam at 4 give
  the total \<open>74 * (1 - 2) * (1 + 0) = - 74\<close>, accepted and stored as it is.
\<close>

theorem generate_bill_total_witness:
  "generate_bill real_of_int (\<lambda>_. False) ''2024-05-01T10:00:00'' shop (order [(1, 7), (2, 1)] (Some 2) None)
     = (Inr (1, - 74), snd (generate_bill real_of_int (\<lambda>_. False) ''2024-05-01T10:00:00'' shop (order [(1, 7), (2, 1)] (Some 2) None)))
   \<and> (\<exists>lines customer_name.
         list_all2 (\<lambda>item (pid, q, price). it_product_id item = Some pid
                 \<and> as_int (it_quantity item) = Some q
                 \<and> (\<exists>p. select_product pid shop = Some p \<and> p_price p = price))
            (rq_items (order [(1, 7), (2, 1)] (Some 2) None)) lines
         \<and> - 74 = foldl (\<lambda>a (pid, q, price). a + price * real_of_int q) 0 lines * (1 - 2) * (1 + 0)
         \<and> bills (snd (generate_bill real_of_int (\<lambda>_. False) ''2024-05-01T10:00:00'' shop (order [(1, 7), (2, 1)] (Some 2) None)))
             = bills shop @ [\<lparr>b_id = 1, b_customer_name = customer_name, b_bill_date = ''2024-05-01T10:00:00'',
                                   b_total_amount = - 74, b_discount = 2, b_tax = 0\<rparr>])"
proof -
  have "fst (generate_bill real_of_int (\<lambda>_. False) ''2024-05-01T10:00:00'' shop (order [(1, 7), (2, 1)] (Some 2) None)) = Inr (1, - 74)"
    by (simp add: eval_defs)
  then have h: "generate_bill real_of_int (\<lambda>_. False) ''2024-05-01T10:00:00'' shop (order [(1, 7), (2, 1)] (Some 2) None)
     = (Inr (1, - 74), snd (generate_bill real_of_int (\<lambda>_. False) ''2024-05-01T10:00:00'' shop (order [(1, 7), (2, 1)] (Some 2) None)))"
    by (simp add: prod_eq_iff)
  have o: "rq_discount (order [(1, 7), (2, 1)] (Some 2) None) = Some 2"
     "rq_tax_rate (order [(1, 7), (2, 1)] (Some 2) None) = None"
    by (simp_all add: order_def)
  from generate_bill_total [OF h] show ?thesis
    using h unfolding o by simp
qed



text \<open>
  Claim C3.  Whenever \<open>POST /bill\<close> answers with an error (a missing field, a missing
  product, a quantity that is absent, not an integer or not positive, or insufficient
  stock, for the first item or for a later one; and also an exception answered 500),
  the database after the request is the database before it: every table, hence every
  inventory batch, and no new row in \<open>bills\<close> or \<open>bill_items\<close>.
\<close>

theorem generate_bill_failure_unchanged:
  assumes "fst (generate_bill to_float is_nan now d data) = Inl e"
  shows "snd (generate_bill to_float is_nan now d data) = d"
  using assms by (rule generate_bill_rollback)

text \<open>
  Two items, the second one short of stock: the first item's deductions (batch 1
  deleted, batch 3 reduced) were made in the transaction, and are gone after it.
\<close>

theorem generate_bill_failure_unchanged_witness:
  "fst (generate_bill real_of_int (\<lambda>_. False) ''2024-05-01T10:00:00'' shop (order [(1, 7), (2, 3)] None None))
     = Inl (InsufficientStock 2)
   \<and> map i_id (inventory (working (snd (bill_items_loop real_of_int (get_db_connection shop)
                (rq_items (order [(1, 7), (2, 3)] None None)) 0 [])))) = [2, 3]
   \<and> snd (generate_bill real_of_int (\<lambda>_. False) ''2024-05-01T10:00:00'' shop (order [(1, 7), (2, 3)] None None)) = shop"
proof -
  have h: "fst (generate_bill real_of_int (\<lambda>_. False) ''2024-05-01T10:00:00'' shop (order [(1, 7), (2, 3)] None None))
     = Inl (InsufficientStock 2)"
    by (simp add: eval_defs)
  have w: "map i_id (inventory (working (snd (bill_items_loop real_of_int (get_db_connection shop)
                (rq_items (order [(1, 7), (2, 3)] None None)) 0 [])))) = [2, 3]"
    by (simp add: eval_defs)
  from generate_bill_failure_unchanged [OF h] h w show ?thesis by simp
qed







text \<open>
  Claim C6.  The schema declares \<open>ON DELETE CASCADE\<close> on \<open>inventory.product_id\<close>, but the
  connection that \<open>delete_product\<close> obtains from \<open>get_db_connection\<close> never turns
  foreign-key enforcement on, so the action is not performed: deleting tea (product 1)
  from the shop answers 200, removes the product, and leaves both of its batches in the
  inventory table.
\<close>

theorem delete_product_leaves_batches:
  "fst (delete_product shop 1) = 200
   \<and> map p_id (products (snd (delete_product shop 1))) = [2]
   \<and> filter (\<lambda>r. i_product_id r = 1) (inventory (snd (delete_product shop 1)))
       = [\<lparr>i_id = 1, i_product_id = 1, i_batch_number = ''B1'', i_quantity = 5\<rparr>,
          \<lparr>i_id = 3, i_product_id = 1, i_batch_number = ''B2'', i_quantity = 5\<rparr>]"
  by (simp add: delete_product_def delete_product_row_def Let_def get_db_connection_def
        sqlite3_connect_def execute_def commit_def close_def shop_def)

text \<open>
  Claim C7.  A successful bill appends one \<open>bill_items\<close> row per requested item, in
  request order, each carrying the new bill's id, the item's product id and quantity,
  and as \<open>price_at_purchase\<close> the price of the \<open>products\<close> row whose id is the item's
  product id, as the catalog held it when the request started; and whatever sequence
  of \<open>PUT /products/<id>\<close> requests follows, the tables \<open>bills\<close> and \<open>bill_items\<close> stay
  exactly as the bill left them.
\<close>

theorem bill_snapshot_immutable:
  assumes "generate_bill to_float is_nan now d data = (Inr (bill_id, total_amount), d')"
  shows "(\<exists>rows. bill_items d' = bill_items d @ rows
            \<and> list_all2 (\<lambda>item bi. bi_bill_id bi = bill_id
                   \<and> it_product_id item = Some (bi_product_id bi)
                   \<and> as_int (it_quantity item) = Some (bi_quantity bi)
                   \<and> (\<exists>p \<in> set (products d). p_id p = bi_product_id bi
                          \<and> p_price p = bi_price_at_purchase bi)
                   \<and> catalog_price d (bi_product_id bi) = Some (bi_price_at_purchase bi))
                (rq_items data) rows)
       \<and> (\<forall>ups. bills (update_products is_nan d' ups) = bills d'
                \<and> bill_items (update_products is_nan d' ups) = bill_items d')"
proof -
  from generate_bill_Inr [OF assms] obtain cn tot ls c c1 c2 where
    loop: "bill_items_loop to_float (get_db_connection d) (rq_items data) 0 [] = (Inr (tot, ls), c)"
    and c1: "c1 = execute (insert_bill cn now total_amount (case rq_discount data of None \<Rightarrow> 0 | Some x \<Rightarrow> x)
                            (case rq_tax_rate data of None \<Rightarrow> 0 | Some x \<Rightarrow> x)) c"
    and ins: "insert_bill_items bill_id ls c1 = Inr c2"
    and d': "d' = working c2"
    by blast
  have w0: "working (get_db_connection d) = d"
    by (simp add: get_db_connection_def sqlite3_connect_def)
  from bill_items_loop_Inr [OF loop] have
    lines: "list_all2 (\<lambda>item (pid, q, price). it_product_id item = Some pid
                 \<and> as_int (it_quantity item) = Some q
                 \<and> (\<exists>p. select_product pid d = Some p \<and> p_price p = price)) (rq_items data) ls"
    unfolding w0 by auto
  have "bill_items (working c) = bill_items d"
    using bill_items_loop_frame [OF loop] w0 by simp
  then have b1: "bill_items (working c1) = bill_items d"
    unfolding c1 by (simp add: execute_def insert_bill_def Let_def)
  from insert_bill_items_rows [OF ins] obtain rows where
    rows: "bill_items d' = bill_items d @ rows"
      "list_all2 (\<lambda>(pid, q, price) bi. bi_bill_id bi = bill_id \<and> bi_product_id bi = pid
                      \<and> bi_quantity bi = q \<and> bi_price_at_purchase bi = price) ls rows"
    unfolding d' b1 by blast
  have "list_all2 (\<lambda>item bi. bi_bill_id bi = bill_id
                   \<and> it_product_id item = Some (bi_product_id bi)
                   \<and> as_int (it_quantity item) = Some (bi_quantity bi)
                   \<and> (\<exists>p \<in> set (products d). p_id p = bi_product_id bi
                          \<and> p_price p = bi_price_at_purchase bi)
                   \<and> catalog_price d (bi_product_id bi) = Some (bi_price_at_purchase bi))
                (rq_items data) rows"
    by (rule list_all2_chain [OF lines rows(2)]) (auto dest: select_product_Some)
  with rows(1) update_products_frame show ?thesis by blast
qed

text \<open>
  Jam, the second row of the catalog, is billed at 4 and tea at 10; then jam is set to
  99 and tea to 50: the bill keeps 4 and 10, and its total of 74.
\<close>

theorem bill_snapshot_immutable_witness:
  "generate_bill real_of_int (\<lambda>_. False) ''2024-05-01T10:00:00'' shop (order [(2, 1), (1, 7)] None None)
     = (Inr (1, 74), snd (generate_bill real_of_int (\<lambda>_. False) ''2024-05-01T10:00:00'' shop (order [(2, 1), (1, 7)] None None)))
   \<and> map p_id (products shop) = [1, 2] \<and> map p_price (products shop) = [10, 4]
   \<and> map bi_product_id (bill_items
          (snd (generate_bill real_of_int (\<lambda>_. False) ''2024-05-01T10:00:00'' shop (order [(2, 1), (1, 7)] None None))))
       = [2, 1]
   \<and> map bi_price_at_purchase (bill_items
          (snd (generate_bill real_of_int (\<lambda>_. False) ''2024-05-01T10:00:00'' shop (order [(2, 1), (1, 7)] None None))))
       = [4, 10]
   \<and> map p_price (products (update_products (\<lambda>_. False)
          (snd (generate_bill real_of_int (\<lambda>_. False) ''2024-05-01T10:00:00'' shop (order [(2, 1), (1, 7)] None None)))
          [(2, \<lparr>pr_name = Some ''jam'', pr_description = None, pr_price = Some 99, pr_initial_quantity = None\<rparr>),
           (1, \<lparr>pr_name = Some ''tea'', pr_description = None, pr_price = Some 50, pr_initial_quantity = None\<rparr>)]))
       = [50, 99]
   \<and> map bi_price_at_purchase (bill_items (update_products (\<lambda>_. False)
          (snd (generate_bill real_of_int (\<lambda>_. False) ''2024-05-01T10:00:00'' shop (order [(2, 1), (1, 7)] None None)))
          [(2, \<lparr>pr_name = Some ''jam'', pr_description = None, pr_price = Some 99, pr_initial_quantity = None\<rparr>),
           (1, \<lparr>pr_name = Some ''tea'', pr_description = None, pr_price = Some 50, pr_initial_quantity = None\<rparr>)]))
       = [4, 10]
   \<and> map b_total_amount (bills (update_products (\<lambda>_. False)
          (snd (generate_bill real_of_int (\<lambda>_. False) ''2024-05-01T10:00:00'' shop (order [(2, 1), (1, 7)] None None)))
          [(2, \<lparr>pr_name = Some ''jam'', pr_description = None, pr_price = Some 99, pr_initial_quantity = None\<rparr>),
           (1, \<lparr>pr_name = Some ''tea'', pr_description = None, pr_price = Some 50, pr_initial_quantity = None\<rparr>)]))
       = [74]"
proof -
  let ?g = "generate_bill real_of_int (\<lambda>_. False) ''2024-05-01T10:00:00'' shop (order [(2, 1), (1, 7)] None None)"
  let ?ups = "[(2, \<lparr>pr_name = Some ''jam'', pr_description = None, pr_price = Some (99::real), pr_initial_quantity = None\<rparr>),
               (1, \<lparr>pr_name = Some ''tea'', pr_description = None, pr_price = Some 50, pr_initial_quantity = None\<rparr>)]"
  have "fst ?g = Inr (1, 74)"
    by (simp add: eval_defs)
  then have h: "?g = (Inr (1, 74), snd ?g)"
    by (simp add: prod_eq_iff)
  have c: "map p_id (products shop) = [1, 2]" "map p_price (products shop) = [10, 4]"
    by (simp_all add: shop_def)
  have p: "map p_price (products (update_products (\<lambda>_. False) (snd ?g) ?ups)) = [50, 99]"
    by (simp add: eval_defs update_products_def update_product_def update_product_row_def discard_def)
  have i: "map bi_product_id (bill_items (snd ?g)) = [2, 1]"
    by (simp add: eval_defs)
  have b: "map bi_price_at_purchase (bill_items (snd ?g)) = [4, 10]"
    by (simp add: eval_defs)
  have t: "map b_total_amount (bills (snd ?g)) = [74]"
    by (simp add: eval_defs)
  from bill_snapshot_immutable [OF h] have
    "bills (update_products (\<lambda>_. False) (snd ?g) ?ups) = bills (snd ?g)
       \<and> bill_items (update_products (\<lambda>_. False) (snd ?g) ?ups) = bill_items (snd ?g)"
    by blast
  with h c p i b t show ?thesis by simp
qed

text \<open>
  Claim C8.  \<open>GET /bills\<close> changes nothing and returns every stored bill exactly once,
  as the stored row (id, customer name, bill date, total amount, discount, tax), in
  descending order of \<open>bill_date\<close>; with each bill comes the list of its line items: one
  entry for every pair of a \<open>bill_items\<close> row of that bill and a \<open>products\<close> row its
  \<open>product_id\<close> matches, in the order of the \<open>bill_items\<close> rows and as many times as
  there are such pairs, showing the quantity and \<open>price_at_purchase\<close> of the former and
  the name and description of the latter.
\<close>

theorem get_bills_listing:
  "snd (get_bills d) = d
   \<and> mset (map fst (fst (get_bills d))) = mset (bills d)
   \<and> sorted_wrt (\<lambda>x y. b_bill_date (fst y) \<le> b_bill_date (fst x)) (fst (get_bills d))
   \<and> map snd (fst (get_bills d))
       = map (\<lambda>bill.
                map (\<lambda>(bi, p). \<lparr>v_quantity = bi_quantity bi,
                                  v_price_at_purchase = bi_price_at_purchase bi,
                                  v_product_name = p_name p, v_description = p_description p\<rparr>)
                  (filter (\<lambda>(bi, p). bi_bill_id bi = b_id bill \<and> bi_product_id bi = p_id p)
                     (List.product (bill_items d) (products d))))
           (map fst (fst (get_bills d)))"
proof (intro conjI)
  show "snd (get_bills d) = d" by (rule get_bills_eq)
  have fsts: "map fst (fst (get_bills d)) = select_bills_desc d"
    by (simp add: get_bills_eq comp_def)
  show "mset (map fst (fst (get_bills d))) = mset (bills d)"
    unfolding fsts by (simp add: select_bills_desc_def)
  have "sorted_wrt (\<lambda>x y. b_bill_date y \<le> b_bill_date x) (map fst (fst (get_bills d)))"
    unfolding fsts by (rule select_bills_desc_sorted)
  then show "sorted_wrt (\<lambda>x y. b_bill_date (fst y) \<le> b_bill_date (fst x)) (fst (get_bills d))"
    by (simp add: sorted_wrt_map)
  have "map snd (fst (get_bills d))
          = map (\<lambda>bill. select_bill_items_joined (b_id bill) d) (select_bills_desc d)"
    by (simp add: get_bills_eq comp_def)
  then show "map snd (fst (get_bills d))
       = map (\<lambda>bill.
                map (\<lambda>(bi, p). \<lparr>v_quantity = bi_quantity bi,
                                  v_price_at_purchase = bi_price_at_purchase bi,
                                  v_product_name = p_name p, v_description = p_description p\<rparr>)
                  (filter (\<lambda>(bi, p). bi_bill_id bi = b_id bill \<and> bi_product_id bi = p_id p)
                     (List.product (bill_items d) (products d))))
           (map fst (fst (get_bills d)))"
    unfolding fsts select_bill_items_joined_product .
qed

text \<open>
  In the ledger, Bob's bill of 2 May comes before Ann's of 1 May, each with its items.
  A bill that orders 2 tea twice is listed with both of its line items.
\<close>

theorem get_bills_listing_witness:
  "fst (get_bills ledger)
     = [(\<lparr>b_id = 2, b_customer_name = ''Bob'', b_bill_date = ''2024-05-02T09:30:00'',
           b_total_amount = 20, b_discount = 0, b_tax = 0\<rparr>,
         [\<lparr>v_quantity = 2, v_price_at_purchase = 10, v_product_name = ''tea'', v_description = None\<rparr>]),
        (\<lparr>b_id = 1, b_customer_name = ''Ann'', b_bill_date = ''2024-05-01T10:00:00'',
           b_total_amount = 74, b_discount = 0, b_tax = 0\<rparr>,
         [\<lparr>v_quantity = 7, v_price_at_purchase = 10, v_product_name = ''tea'', v_description = None\<rparr>,
          \<lparr>v_quantity = 1, v_price_at_purchase = 4, v_product_name = ''jam'', v_description = Some ''plum''\<rparr>])]
   \<and> sorted_wrt (\<lambda>x y. b_bill_date (fst y) \<le> b_bill_date (fst x)) (fst (get_bills ledger))
   \<and> map snd (fst (get_bills ledger))
       = map (\<lambda>bill.
                map (\<lambda>(bi, p). \<lparr>v_quantity = bi_quantity bi,
                                  v_price_at_purchase = bi_price_at_purchase bi,
                                  v_product_name = p_name p, v_description = p_description p\<rparr>)
                  (filter (\<lambda>(bi, p). bi_bill_id bi = b_id bill \<and> bi_product_id bi = p_id p)
                     (List.product (bill_items ledger) (products ledger))))
           (map fst (fst (get_bills ledger)))
   \<and> fst (get_bills (snd (generate_bill real_of_int (\<lambda>_. False) ''2024-05-01T10:00:00'' shop
                              (order [(1, 2), (1, 2)] None None))))
       = [(\<lparr>b_id = 1, b_customer_name = ''Ann'', b_bill_date = ''2024-05-01T10:00:00'',
             b_total_amount = 40, b_discount = 0, b_tax = 0\<rparr>,
           [\<lparr>v_quantity = 2, v_price_at_purchase = 10, v_product_name = ''tea'', v_description = None\<rparr>,
            \<lparr>v_quantity = 2, v_price_at_purchase = 10, v_product_name = ''tea'', v_description = None\<rparr>])]"
proof -
  have e: "fst (get_bills ledger)
     = [(\<lparr>b_id = 2, b_customer_name = ''Bob'', b_bill_date = ''2024-05-02T09:30:00'',
           b_total_amount = 20, b_discount = 0, b_tax = 0\<rparr>,
         [\<lparr>v_quantity = 2, v_price_at_purchase = 10, v_product_name = ''tea'', v_description = None\<rparr>]),
        (\<lparr>b_id = 1, b_customer_name = ''Ann'', b_bill_date = ''2024-05-01T10:00:00'',
           b_total_amount = 74, b_discount = 0, b_tax = 0\<rparr>,
         [\<lparr>v_quantity = 7, v_price_at_purchase = 10, v_product_name = ''tea'', v_description = None\<rparr>,
          \<lparr>v_quantity = 1, v_price_at_purchase = 4, v_product_name = ''jam'', v_description = Some ''plum''\<rparr>])]"
    by (simp add: get_bills_def get_db_connection_def sqlite3_connect_def close_def Let_def
          select_bills_desc_def select_bill_items_joined_def ledger_def shop_def
          less_eq_list_code less_list_code)
  have twice: "fst (get_bills (snd (generate_bill real_of_int (\<lambda>_. False) ''2024-05-01T10:00:00'' shop
                              (order [(1, 2), (1, 2)] None None))))
       = [(\<lparr>b_id = 1, b_customer_name = ''Ann'', b_bill_date = ''2024-05-01T10:00:00'',
             b_total_amount = 40, b_discount = 0, b_tax = 0\<rparr>,
           [\<lparr>v_quantity = 2, v_price_at_purchase = 10, v_product_name = ''tea'', v_description = None\<rparr>,
            \<lparr>v_quantity = 2, v_price_at_purchase = 10, v_product_name = ''tea'', v_description = None\<rparr>])]"
    by (simp add: eval_defs get_bills_def select_bills_desc_def select_bill_items_joined_def)
  from get_bills_listing [of ledger] have
    "sorted_wrt (\<lambda>x y. b_bill_date (fst y) \<le> b_bill_date (fst x)) (fst (get_bills ledger))"
    and "map snd (fst (get_bills ledger))
       = map (\<lambda>bill.
                map (\<lambda>(bi, p). \<lparr>v_quantity = bi_quantity bi,
                                  v_price_at_purchase = bi_price_at_purchase bi,
                                  v_product_name = p_name p, v_description = p_description p\<rparr>)
                  (filter (\<lambda>(bi, p). bi_bill_id bi = b_id bill \<and> bi_product_id bi = p_id p)
                     (List.product (bill_items ledger) (products ledger))))
           (map fst (fst (get_bills ledger)))"
    by blast+
  note listing = this
  show ?thesis by (intro conjI; fact)
qed

text \<open>
  Claim C9, as stated, gives the batch the quantity \<open>2 * q\<close> for every positive \<open>q\<close>.  The
  second \<open>q\<close> is added by \<open>UPDATE inventory SET quantity = quantity + ?\<close>, inside SQLite,
  whose integers have 64 bits: for \<open>q = 2 ^ 62 + 1 = 4611686018427387905\<close> the sum leaves
  the range, SQLite adds the operands as doubles, and the batch holds the REAL
  \<open>9.223372036854775808e18 = 2 ^ 63\<close>, which is not \<open>2 * q = 9223372036854775810\<close>.
\<close>

theorem add_product_initial_batch_overflow_counterexample:
  "add_product (\<lambda>_. False) shop
     \<lparr>pr_name = Some ''mint'', pr_description = None, pr_price = Some 3,
      pr_initial_quantity = Some 4611686018427387905\<rparr>
     = ((201, Some 3),
        snd (add_product (\<lambda>_. False) shop
               \<lparr>pr_name = Some ''mint'', pr_description = None, pr_price = Some 3,
                pr_initial_quantity = Some 4611686018427387905\<rparr>))
   \<and> filter (\<lambda>r. i_product_id r = 3)
        (inventory (snd (add_product (\<lambda>_. False) shop
               \<lparr>pr_name = Some ''mint'', pr_description = None, pr_price = Some 3,
                pr_initial_quantity = Some 4611686018427387905\<rparr>)))
       = [\<lparr>i_id = 4, i_product_id = 3, i_batch_number = ''INITIAL-3'',
           i_quantity = 9223372036854775808\<rparr>]
   \<and> 2 * 4611686018427387905 = (9223372036854775810 :: int)
   \<and> sqlite_add 4611686018427387905 4611686018427387905 \<noteq> 2 * 4611686018427387905"
proof -
  let ?data = "\<lparr>pr_name = Some ''mint'', pr_description = None, pr_price = Some (3::real),
                 pr_initial_quantity = Some 4611686018427387905\<rparr>"
  have s: "str_int 3 = ''3''" by (simp add: str_int_def digits.simps)
  have a: "sqlite_add 4611686018427387905 4611686018427387905 = 9223372036854775808"
    by (simp add: sqlite_add_def int64_def nearest_double_def nearest_double_nat_def
          bit_length.simps Let_def)
  have f: "fst (add_product (\<lambda>_. False) shop ?data) = (201, Some 3)"
    by (simp add: add_product_def shop_def Let_def get_db_connection_def sqlite3_connect_def
          execute_def commit_def close_def insert_product_def next_rowid_def int64_def)
  have e: "filter (\<lambda>r. i_product_id r = 3) (inventory (snd (add_product (\<lambda>_. False) shop ?data)))
             = [\<lparr>i_id = 4, i_product_id = 3, i_batch_number = ''INITIAL-3'',
                 i_quantity = 9223372036854775808\<rparr>]"
    by (simp add: add_product_def shop_def Let_def get_db_connection_def sqlite3_connect_def
          execute_def commit_def close_def insert_product_def next_rowid_def s int64_def
          insert_or_ignore_inventory_def select_batch_def insert_inventory_def
          add_inventory_quantity_def a)
  from f have h: "add_product (\<lambda>_. False) shop ?data
                    = ((201, Some 3), snd (add_product (\<lambda>_. False) shop ?data))"
    by (simp add: prod_eq_iff)
  have n: "2 * 4611686018427387905 = (9223372036854775810 :: int)"
    "sqlite_add 4611686018427387905 4611686018427387905 \<noteq> 2 * 4611686018427387905"
    unfolding a by simp_all
  show ?thesis
    by (intro conjI; fact)
qed

text \<open>
  Claim C9, amended.  A \<open>POST /products\<close> request with a positive \<open>initial_quantity\<close> \<open>q\<close>
  such that \<open>2 * q\<close> is a 64-bit integer, and that creates a product (status 201),
  leaves the new product with exactly one inventory batch; its label is \<open>INITIAL-\<close>
  followed by the decimal numeral of the product's id, and its quantity is \<open>2 * q\<close>.
  The database is one in which no inventory row refers to a product id above the
  \<open>sqlite_sequence\<close> counter of \<open>products\<close>, as in every database the application has
  produced (\<open>wf_db_handle\<close>): product ids are never reused.
\<close>

theorem add_product_initial_batch_doubled:
  assumes "pr_initial_quantity data = Some q" and "0 < q" and "2 * q < 2 ^ 63"
    and "add_product is_nan d data = ((201, Some product_id), d')"
    and "\<forall>r \<in> set (inventory d). i_product_id r \<le> seq_products d"
  shows "\<exists>r label. filter (\<lambda>r. i_product_id r = product_id) (inventory d') = [r]
           \<and> i_batch_number r = ''INITIAL-'' @ label
           \<and> read_int label = Some product_id
           \<and> i_quantity r = 2 * q"
proof -
  define bn where "bn = ''INITIAL-'' @ str_int product_id"
  from add_product_created [OF assms(4)] assms(1,2) have
    pid: "product_id = next_rowid (seq_products d) (map p_id (products d))"
    and inv: "inventory d' = inventory (add_inventory_quantity q product_id bn
                               (insert_or_ignore_inventory product_id bn q d))"
    unfolding bn_def by auto
  have fresh: "\<forall>r \<in> set (inventory d). i_product_id r \<noteq> product_id"
    using assms(5) next_rowid_greater(1) [of "seq_products d" "map p_id (products d)"] pid by fastforce
  then have none: "select_batch product_id bn d = None"
    by (auto simp: select_batch_def find_None_iff)
  have old: "filter (\<lambda>r. i_product_id r = product_id) (inventory d) = []"
    using fresh by (auto simp: filter_empty_conv)
  have oldm: "map (\<lambda>r. if i_product_id r = product_id \<and> i_batch_number r = bn
                          then r\<lparr>i_quantity := sqlite_add (i_quantity r) q\<rparr> else r) (inventory d) = inventory d"
    using fresh by (simp add: map_idI)
  have twice: "sqlite_add q q = 2 * q"
    using assms(2,3) by (simp add: sqlite_add_def int64_def)
  let ?r = "\<lparr>i_id = next_rowid (seq_inventory d) (map i_id (inventory d)), i_product_id = product_id,
             i_batch_number = bn, i_quantity = 2 * q\<rparr>"
  have "filter (\<lambda>r. i_product_id r = product_id) (inventory d') = [?r]"
    unfolding inv
    by (simp add: insert_or_ignore_inventory_def none add_inventory_quantity_def insert_inventory_def
          Let_def oldm old twice)
  then show ?thesis
    by (intro exI [of _ ?r] exI [of _ "str_int product_id"]) (simp add: bn_def read_int_str_int)
qed

text \<open>
  The shop's counter of \<open>products\<close> stands at 41 after earlier deletions.  Adding mint
  with an initial quantity of 6 creates product 42 and a batch INITIAL-42 of 12.
\<close>

theorem add_product_initial_batch_doubled_witness:
  "add_product (\<lambda>_. False) (shop\<lparr>seq_products := 41\<rparr>)
       \<lparr>pr_name = Some ''mint'', pr_description = None, pr_price = Some 3, pr_initial_quantity = Some 6\<rparr>
     = ((201, Some 42),
        snd (add_product (\<lambda>_. False) (shop\<lparr>seq_products := 41\<rparr>)
               \<lparr>pr_name = Some ''mint'', pr_description = None, pr_price = Some 3,
                pr_initial_quantity = Some 6\<rparr>))
   \<and> map i_product_id (inventory (shop\<lparr>seq_products := 41\<rparr>)) = [1, 2, 1]
   \<and> seq_products (shop\<lparr>seq_products := 41\<rparr>) = 41
   \<and> filter (\<lambda>r. i_product_id r = 42)
        (inventory (snd (add_product (\<lambda>_. False) (shop\<lparr>seq_products := 41\<rparr>)
               \<lparr>pr_name = Some ''mint'', pr_description = None, pr_price = Some 3,
                pr_initial_quantity = Some 6\<rparr>)))
       = [\<lparr>i_id = 4, i_product_id = 42, i_batch_number = ''INITIAL-42'', i_quantity = 12\<rparr>]
   \<and> read_int ''42'' = Some 42"
proof -
  let ?data = "\<lparr>pr_name = Some ''mint'', pr_description = None, pr_price = Some (3::real),
                 pr_initial_quantity = Some 6\<rparr>"
  let ?shop = "shop\<lparr>seq_products := 41\<rparr>"
  have s: "str_int 42 = ''42''" by (simp add: str_int_def digits.simps)
  have f: "fst (add_product (\<lambda>_. False) ?shop ?data) = (201, Some 42)"
    by (simp add: add_product_def shop_def Let_def get_db_connection_def sqlite3_connect_def
          execute_def commit_def close_def insert_product_def next_rowid_def int64_def)
  then have h: "add_product (\<lambda>_. False) ?shop ?data
                  = ((201, Some 42), snd (add_product (\<lambda>_. False) ?shop ?data))"
    by (simp add: prod_eq_iff)
  have h5: "\<forall>r \<in> set (inventory ?shop). i_product_id r \<le> seq_products ?shop"
    by (simp add: shop_def)
  have h1: "pr_initial_quantity ?data = Some 6" by simp
  have e: "filter (\<lambda>r. i_product_id r = 42) (inventory (snd (add_product (\<lambda>_. False) ?shop ?data)))
             = [\<lparr>i_id = 4, i_product_id = 42, i_batch_number = ''INITIAL-42'', i_quantity = 12\<rparr>]"
    by (simp add: add_product_def shop_def Let_def get_db_connection_def sqlite3_connect_def
          execute_def commit_def close_def insert_product_def next_rowid_def s int64_def
          insert_or_ignore_inventory_def select_batch_def insert_inventory_def
          add_inventory_quantity_def sqlite_add_def)
  from add_product_initial_batch_doubled [OF h1 _ _ h h5] have
    "\<exists>r label. filter (\<lambda>r. i_product_id r = 42) (inventory (snd (add_product (\<lambda>_. False) ?shop ?data))) = [r]
           \<and> i_batch_number r = ''INITIAL-'' @ label \<and> read_int label = Some 42
           \<and> i_quantity r = 2 * 6"
    by simp
  then have "read_int ''42'' = Some 42"
    unfolding e by auto
  moreover have "map i_product_id (inventory ?shop) = [1, 2, 1]" "seq_products ?shop = 41"
    by (simp_all add: shop_def)
  ultimately show ?thesis using h e by simp
qed

text \<open>
  Claim C10.  A line item whose \<open>product_id\<close> matches no row of \<open>products\<close> contributes
  nothing to the items listed for its bill.  Deleting a product leaves \<open>bills\<close> and
  \<open>bill_items\<close> as they are, and \<open>GET /bills\<close> afterwards returns the same bills in the
  same order, with their stored totals, but with the items that a database without the
  line items of the deleted product would show.
\<close>

theorem get_bills_omits_orphans:
  "((\<forall>p \<in> set (products d). p_id p \<noteq> bi_product_id bi) \<longrightarrow>
      select_bill_items_joined bid (d\<lparr>bill_items := pre @ bi # post\<rparr>)
        = select_bill_items_joined bid (d\<lparr>bill_items := pre @ post\<rparr>))
   \<and> bills (snd (delete_product d0 pid)) = bills d0
   \<and> bill_items (snd (delete_product d0 pid)) = bill_items d0
   \<and> fst (get_bills (snd (delete_product d0 pid)))
       = map (\<lambda>bill. (bill, select_bill_items_joined (b_id bill)
                               (d0\<lparr>bill_items := filter (\<lambda>bi. bi_product_id bi \<noteq> pid) (bill_items d0)\<rparr>)))
           (select_bills_desc d0)"
proof (intro conjI impI)
  assume "\<forall>p \<in> set (products d). p_id p \<noteq> bi_product_id bi"
  then have "filter (\<lambda>p. bi_product_id bi = p_id p) (products d) = []"
    by (auto simp: filter_empty_conv)
  then show "select_bill_items_joined bid (d\<lparr>bill_items := pre @ bi # post\<rparr>)
               = select_bill_items_joined bid (d\<lparr>bill_items := pre @ post\<rparr>)"
    by (simp add: select_bill_items_joined_def)
next
  show "bills (snd (delete_product d0 pid)) = bills d0"
    and "bill_items (snd (delete_product d0 pid)) = bill_items d0"
    by (simp_all add: delete_product_result)
  have "select_bill_items_joined b (snd (delete_product d0 pid))
          = select_bill_items_joined b (d0\<lparr>bill_items := filter (\<lambda>bi. bi_product_id bi \<noteq> pid) (bill_items d0)\<rparr>)"
    for b
    by (simp del: filter_filter
          add: select_bill_items_joined_def delete_product_result joined_without_product)
  then show "fst (get_bills (snd (delete_product d0 pid)))
       = map (\<lambda>bill. (bill, select_bill_items_joined (b_id bill)
                               (d0\<lparr>bill_items := filter (\<lambda>bi. bi_product_id bi \<noteq> pid) (bill_items d0)\<rparr>)))
           (select_bills_desc d0)"
    by (simp add: get_bills_eq select_bills_desc_def delete_product_result)
qed

text \<open>
  Tea is deleted after the two bills of the ledger.  Ann's bill still shows its total of
  74, which includes 7 tea at 10, but lists the jam only; Bob's bill of 20 lists nothing.
\<close>

theorem get_bills_omits_orphans_witness:
  "map p_id (products (snd (delete_product ledger 1))) = [2]
   \<and> map bi_product_id (bill_items (snd (delete_product ledger 1))) = [1, 2, 1]
   \<and> select_bill_items_joined 1 (snd (delete_product ledger 1))
       = select_bill_items_joined 1 ((snd (delete_product ledger 1))
           \<lparr>bill_items := [\<lparr>bi_id = 2, bi_bill_id = 1, bi_product_id = 2, bi_quantity = 1, bi_price_at_purchase = 4\<rparr>,
                           \<lparr>bi_id = 3, bi_bill_id = 2, bi_product_id = 1, bi_quantity = 2, bi_price_at_purchase = 10\<rparr>]\<rparr>)
   \<and> fst (get_bills (snd (delete_product ledger 1)))
       = [(\<lparr>b_id = 2, b_customer_name = ''Bob'', b_bill_date = ''2024-05-02T09:30:00'',
             b_total_amount = 20, b_discount = 0, b_tax = 0\<rparr>, []),
          (\<lparr>b_id = 1, b_customer_name = ''Ann'', b_bill_date = ''2024-05-01T10:00:00'',
             b_total_amount = 74, b_discount = 0, b_tax = 0\<rparr>,
           [\<lparr>v_quantity = 1, v_price_at_purchase = 4, v_product_name = ''jam'', v_description = Some ''plum''\<rparr>])]"
proof -
  let ?d = "snd (delete_product ledger 1)"
  let ?tea = "\<lparr>bi_id = 1, bi_bill_id = 1, bi_product_id = 1, bi_quantity = 7, bi_price_at_purchase = 10::real\<rparr>"
  let ?post = "[\<lparr>bi_id = 2, bi_bill_id = 1, bi_product_id = 2, bi_quantity = 1, bi_price_at_purchase = 4::real\<rparr>,
                \<lparr>bi_id = 3, bi_bill_id = 2, bi_product_id = 1, bi_quantity = 2, bi_price_at_purchase = 10\<rparr>]"
  have h: "\<forall>p \<in> set (products ?d). p_id p \<noteq> bi_product_id ?tea"
    by (simp add: delete_product_result ledger_def shop_def)
  have items: "bill_items ?d = [] @ ?tea # ?post"
    by (simp add: delete_product_result ledger_def shop_def)
  then have same: "?d\<lparr>bill_items := [] @ ?tea # ?post\<rparr> = ?d"
    by simp
  have ids: "map bi_product_id (bill_items ?d) = [1, 2, 1]"
    unfolding items by simp
  have listing: "map (\<lambda>bill. (bill, select_bill_items_joined (b_id bill)
                               (ledger\<lparr>bill_items := filter (\<lambda>bi. bi_product_id bi \<noteq> 1) (bill_items ledger)\<rparr>)))
           (select_bills_desc ledger)
       = [(\<lparr>b_id = 2, b_customer_name = ''Bob'', b_bill_date = ''2024-05-02T09:30:00'',
             b_total_amount = 20, b_discount = 0, b_tax = 0\<rparr>, []),
          (\<lparr>b_id = 1, b_customer_name = ''Ann'', b_bill_date = ''2024-05-01T10:00:00'',
             b_total_amount = 74, b_discount = 0, b_tax = 0\<rparr>,
           [\<lparr>v_quantity = 1, v_price_at_purchase = 4, v_product_name = ''jam'', v_description = Some ''plum''\<rparr>])]"
    by (simp add: select_bills_desc_def select_bill_items_joined_def ledger_def shop_def
          less_eq_list_code less_list_code)
  from get_bills_omits_orphans [of ?d ?tea 1 "[]" ?post ledger 1] h
  have "select_bill_items_joined 1 (?d\<lparr>bill_items := [] @ ?tea # ?post\<rparr>)
          = select_bill_items_joined 1 (?d\<lparr>bill_items := [] @ ?post\<rparr>)"
    and "fst (get_bills ?d)
       = map (\<lambda>bill. (bill, select_bill_items_joined (b_id bill)
                               (ledger\<lparr>bill_items := filter (\<lambda>bi. bi_product_id bi \<noteq> 1) (bill_items ledger)\<rparr>)))
           (select_bills_desc ledger)"
    by blast+
  then have "select_bill_items_joined 1 ?d = select_bill_items_joined 1 (?d\<lparr>bill_items := ?post\<rparr>)"
    and "fst (get_bills ?d)
       = [(\<lparr>b_id = 2, b_customer_name = ''Bob'', b_bill_date = ''2024-05-02T09:30:00'',
             b_total_amount = 20, b_discount = 0, b_tax = 0\<rparr>, []),
          (\<lparr>b_id = 1, b_customer_name = ''Ann'', b_bill_date = ''2024-05-01T10:00:00'',
             b_total_amount = 74, b_discount = 0, b_tax = 0\<rparr>,
           [\<lparr>v_quantity = 1, v_price_at_purchase = 4, v_product_name = ''jam'', v_description = Some ''plum''\<rparr>])]"
    unfolding same listing by simp_all
  moreover have "map p_id (products ?d) = [2]"
    by (simp add: delete_product_result ledger_def shop_def)
  ultimately show ?thesis using ids by simp
qed

end
